theory Spec2Isabelle
  imports Main "HOL-Library.AList"
begin

section \<open>Python strings\<close>

text \<open>
  The source is Python 3 text processing. A \<^typ>\<open>string\<close> stands for a Python \<open>str\<close>
  whose code points lie in the range 0..255; a \<^typ>\<open>char\<close> is the code point.
  The character classes below are Python's own on that range:
  \<open>str.isspace\<close> (also the class \<open>\s\<close> of \<open>re\<close>, the characters removed by
  \<open>str.strip()\<close> and the separators of \<open>str.split()\<close>), the line boundaries of
  \<open>str.splitlines()\<close>, and the class \<open>\w\<close> of \<open>re\<close>.
\<close>

definition isspace :: "char \<Rightarrow> bool" where
  "isspace c = (of_char c \<in> {9, 10, 11, 12, 13, 28, 29, 30, 31, 32, 133, 160 :: nat})"

definition is_linebreak :: "char \<Rightarrow> bool" where
  "is_linebreak c = (of_char c \<in> {10, 11, 12, 13, 28, 29, 30, 133 :: nat})"

definition isword :: "char \<Rightarrow> bool" where
  "isword c =
     (let n = (of_char c :: nat)
      in (48 \<le> n \<and> n \<le> 57) \<or> (65 \<le> n \<and> n \<le> 90) \<or> n = 95 \<or> (97 \<le> n \<and> n \<le> 122)
         \<or> n \<in> {170, 178, 179, 181, 185, 186, 188, 189, 190}
         \<or> (192 \<le> n \<and> n \<le> 214) \<or> (216 \<le> n \<and> n \<le> 246) \<or> 248 \<le> n)"

abbreviation NL :: char where
  "NL \<equiv> CHR 0x0A"

abbreviation CR :: char where
  "CR \<equiv> CHR 0x0D"

abbreviation SP :: char where
  "SP \<equiv> CHR 0x20"

definition is_SP :: "char \<Rightarrow> bool" where
  "is_SP c = (c = SP)"

definition not_NL :: "char \<Rightarrow> bool" where
  "not_NL c = (c \<noteq> NL)"

text \<open>\<open>s.startswith(p)\<close>, \<open>s.endswith(p)\<close> and \<open>p in s\<close>.\<close>

definition startswith :: "string \<Rightarrow> string \<Rightarrow> bool" where
  "startswith s p = (take (length p) s = p)"

definition endswith :: "string \<Rightarrow> string \<Rightarrow> bool" where
  "endswith s p = startswith (rev s) (rev p)"

fun contains :: "string \<Rightarrow> string \<Rightarrow> bool" where
  "contains [] p = (p = [])"
| "contains (c # cs) p = (startswith (c # cs) p \<or> contains cs p)"

definition strip :: "string \<Rightarrow> string" where
  "strip s = rev (dropWhile isspace (rev (dropWhile isspace s)))"

text \<open>\<open>s.split()\<close>: the maximal runs of non-whitespace characters, in order.\<close>

fun split_ws_from :: "string \<Rightarrow> string \<Rightarrow> string list" where
  "split_ws_from cur [] = (if cur = [] then [] else [rev cur])"
| "split_ws_from cur (c # cs) =
     (if isspace c then (if cur = [] then split_ws_from [] cs else rev cur # split_ws_from [] cs)
      else split_ws_from (c # cur) cs)"

definition split_ws :: "string \<Rightarrow> string list" where
  "split_ws s = split_ws_from [] s"

text \<open>\<open>s.split(sep)\<close> for a one-character separator: never an empty list.\<close>

fun split_on :: "char \<Rightarrow> string \<Rightarrow> string list" where
  "split_on sep [] = [[]]"
| "split_on sep (c # cs) =
     (if c = sep then [] # split_on sep cs
      else (case split_on sep cs of [] \<Rightarrow> [[c]] | l # ls \<Rightarrow> (c # l) # ls))"

text \<open>
  \<open>s.splitlines()\<close>: the text is cut at every line boundary, \<open>\r\n\<close> counts as one
  boundary, and a boundary at the very end opens no further line.
\<close>

fun splitlines :: "string \<Rightarrow> string list" where
  "splitlines [] = []"
| "splitlines [c] = (if is_linebreak c then [[]] else [[c]])"
| "splitlines (c # d # cs) =
     (if c = CR \<and> d = NL then [] # splitlines cs
      else if is_linebreak c then [] # splitlines (d # cs)
      else (case splitlines (d # cs) of [] \<Rightarrow> [[c]] | l # ls \<Rightarrow> (c # l) # ls))"

text \<open>\<open>sep.join(xs)\<close>.\<close>

fun join :: "string \<Rightarrow> string list \<Rightarrow> string" where
  "join sep [] = []"
| "join sep [x] = x"
| "join sep (x # y # ys) = x @ sep @ join sep (y # ys)"

text \<open>The first line of a text and what follows its newline, when there is a newline.\<close>

definition line_break :: "string \<Rightarrow> (string \<times> string) option" where
  "line_break s =
     (if NL \<in> set s then Some (takeWhile not_NL s, tl (dropWhile not_NL s)) else None)"

section \<open>Exceptions\<close>

text \<open>
  An exception class is its name and the names of its proper ancestors; \<open>except C\<close> catches
  the instances of \<open>C\<close> and of its subclasses. An exception is an instance of a class;
  the \<open>PlotError\<close> raised with \<open>traceback.format_exc()\<close> as its message is the
  constructor \<open>PlotErrorOf\<close> applied to the exception whose trace it carries.
\<close>

datatype pyclass = PyClass string "string list"

fun class_name :: "pyclass \<Rightarrow> string" where
  "class_name (PyClass n bs) = n"

fun ancestors :: "pyclass \<Rightarrow> string list" where
  "ancestors (PyClass n bs) = bs"

definition issubclass :: "pyclass \<Rightarrow> pyclass \<Rightarrow> bool" where
  "issubclass c d = (class_name c = class_name d \<or> class_name d \<in> set (ancestors c))"

definition BaseException :: pyclass where
  "BaseException = PyClass ''BaseException'' []"

definition Exception :: pyclass where
  "Exception = PyClass ''Exception'' [''BaseException'']"

definition SystemExit :: pyclass where
  "SystemExit = PyClass ''SystemExit'' [''BaseException'']"

definition KeyboardInterrupt :: pyclass where
  "KeyboardInterrupt = PyClass ''KeyboardInterrupt'' [''BaseException'']"

definition SyntaxError :: pyclass where
  "SyntaxError = PyClass ''SyntaxError'' [''Exception'', ''BaseException'']"

definition ValueError :: pyclass where
  "ValueError = PyClass ''ValueError'' [''Exception'', ''BaseException'']"

definition UnicodeError :: pyclass where
  "UnicodeError = PyClass ''UnicodeError'' [''ValueError'', ''Exception'', ''BaseException'']"

definition TypeError :: pyclass where
  "TypeError = PyClass ''TypeError'' [''Exception'', ''BaseException'']"

definition AttributeError :: pyclass where
  "AttributeError = PyClass ''AttributeError'' [''Exception'', ''BaseException'']"

definition IndexError :: pyclass where
  "IndexError = PyClass ''IndexError'' [''LookupError'', ''Exception'', ''BaseException'']"

definition KeyError :: pyclass where
  "KeyError = PyClass ''KeyError'' [''LookupError'', ''Exception'', ''BaseException'']"

definition FileNotFoundError :: pyclass where
  "FileNotFoundError = PyClass ''FileNotFoundError'' [''OSError'', ''Exception'', ''BaseException'']"

definition OSError :: pyclass where
  "OSError = PyClass ''OSError'' [''Exception'', ''BaseException'']"

text \<open>\<open>class PlotError(RuntimeError)\<close> and \<open>class PlotValueError(ValueError)\<close>.\<close>

definition PlotError :: pyclass where
  "PlotError = PyClass ''PlotError'' [''RuntimeError'', ''Exception'', ''BaseException'']"

definition PlotValueError :: pyclass where
  "PlotValueError = PyClass ''PlotValueError'' [''ValueError'', ''Exception'', ''BaseException'']"

datatype exc = Exc pyclass | PlotErrorOf exc

fun class_of :: "exc \<Rightarrow> pyclass" where
  "class_of (Exc c) = c"
| "class_of (PlotErrorOf e) = PlotError"

text \<open>\<open>except c:\<close> catches \<open>e\<close>.\<close>

definition catches :: "pyclass \<Rightarrow> exc \<Rightarrow> bool" where
  "catches c e = issubclass (class_of e) c"

section \<open>Builder visibility\<close>

text \<open>
  The attributes of a node and the \<open>node_attrs\<close> dict of the directive are Python dicts from
  attribute names to lists of builder names.
\<close>

type_synonym attrs = "string \<rightharpoonup> string list"

text \<open>\<open>self.get(key, [])\<close>.\<close>

definition get_default :: "attrs \<Rightarrow> string \<Rightarrow> string list" where
  "get_default a k = (case a k of None \<Rightarrow> [] | Some v \<Rightarrow> v)"

text \<open>\<open>nbplot_container.likes_builder\<close>.\<close>

definition likes_builder :: "attrs \<Rightarrow> string \<Rightarrow> bool" where
  "likes_builder self builder_name =
     (let hide_from = get_default self ''hide-from'';
          show_to = get_default self ''show-to''
      in if builder_name \<in> set show_to then True
         else if ''all'' \<in> set hide_from then False
         else builder_name \<notin> set hide_from)"

text \<open>
  \<open>_hide_from_builder\<close>: the dict is changed in place, so the model returns the new dict;
  \<open>attrs['show-to']\<close> on a dict without that key raises \<open>KeyError\<close>, and \<open>list.remove\<close>
  deletes the first occurrence only.
\<close>

definition hide_from_builder :: "attrs \<Rightarrow> string \<Rightarrow> exc + attrs" where
  "hide_from_builder a builder_name =
     (case a ''show-to'' of
        None \<Rightarrow> Inl (Exc KeyError)
      | Some show_to \<Rightarrow>
          (let a1 = (if builder_name \<in> set show_to
                     then a(''show-to'' \<mapsto> remove1 builder_name show_to) else a)
           in case a1 ''hide-from'' of
                None \<Rightarrow> Inl (Exc KeyError)
              | Some hide_from \<Rightarrow>
                  Inr (if builder_name \<notin> set hide_from
                       then a1(''hide-from'' \<mapsto> hide_from @ [builder_name]) else a1)))"

text \<open>
  The loop of \<open>rst2nodes\<close> that copies the attributes onto the node:
  \<open>for key, value in node_attrs.items(): if value: node[key] = value\<close>; an empty list is
  not copied.
\<close>

definition node_with_attrs :: "attrs \<Rightarrow> attrs" where
  "node_with_attrs node_attrs =
     (\<lambda>key. case node_attrs key of
               None \<Rightarrow> None
             | Some v \<Rightarrow> if v = [] then None else Some v)"

text \<open>
  The options of the directive that \<open>_proc_builder_opts\<close> reads; a field is \<open>None\<close> when
  the key is absent from \<open>self.options\<close>. The option spec converts \<open>include-source\<close> to a
  bool and leaves \<open>hide-from\<close> and \<open>show-to\<close> as the text written.
\<close>

record builder_options =
  include_source :: "bool option"
  hide_from_opt :: "string option"
  show_to_opt :: "string option"

text \<open>\<open>[b_name.strip() for b_name in options[opt_name].split()]\<close>, nothing when absent.\<close>

definition option_names :: "string option \<Rightarrow> string list" where
  "option_names opt = (case opt of None \<Rightarrow> [] | Some v \<Rightarrow> map strip (split_ws v))"

text \<open>
  \<open>NBPlotDirective._proc_builder_opts\<close>; \<open>nbplot_include_source\<close> is the configuration's
  default. It returns the options after \<open>setdefault\<close> and the node attributes.
\<close>

definition proc_builder_opts :: "builder_options \<Rightarrow> bool \<Rightarrow> builder_options \<times> attrs" where
  "proc_builder_opts options nbplot_include_source =
     (let inc = (case include_source options of None \<Rightarrow> nbplot_include_source | Some b \<Rightarrow> b);
          options1 = options\<lparr>include_source := Some inc\<rparr>;
          base_hide = (if inc then [] else [''all'']);
          base_show = (if inc then [] else [''doctest''])
      in (options1,
          [''hide-from'' \<mapsto> base_hide @ option_names (hide_from_opt options1),
           ''show-to'' \<mapsto> base_show @ option_names (show_to_opt options1)]))"

text \<open>A builder name as written in a space-separated list: not empty, no whitespace.\<close>

definition builder_name :: "string \<Rightarrow> bool" where
  "builder_name n = (n \<noteq> [] \<and> list_all (\<lambda>c. \<not> isspace c) n)"

section \<open>The part parser\<close>

text \<open>
  \<open>PARTER\<close> is the verbose regular expression
  \<^verbatim>\<open>(?:\n\n|^)\.\. part\n((?: *\w+ *= *.+\n)*)\n\<close>, without \<open>re.MULTILINE\<close>: \<open>^\<close> is
  the start of the text. An attribute line \<^verbatim>\<open> *\w+ *= *.+\<close> is spaces, a word, spaces,
  \<open>=\<close> and at least one more character; \<open>.\<close> does not cross a newline, so one repetition of
  the group is one whole line, and the repetition takes every such line.
\<close>

definition attr_line_ok :: "string \<Rightarrow> bool" where
  "attr_line_ok line =
     (let l1 = dropWhile is_SP line;
          l2 = dropWhile is_SP (dropWhile isword l1)
      in takeWhile isword l1 \<noteq> [] \<and> startswith l2 ''='' \<and> tl l2 \<noteq> [])"

function take_attr_lines :: "string \<Rightarrow> string \<times> string" where
  "take_attr_lines r =
     (case line_break r of
        None \<Rightarrow> ([], r)
      | Some (line, rest) \<Rightarrow>
          if attr_line_ok line
          then (let (a, r') = take_attr_lines rest in (line @ [NL] @ a, r'))
          else ([], r))"
  by pat_completeness auto
termination
proof (relation "measure length")
  show "wf (measure length)" by simp
next
  fix r :: string and x2 line rest
  assume "line_break r = Some x2" and "(line, rest) = x2"
  then have "rest = tl (dropWhile not_NL r)" and "NL \<in> set r"
    by (auto simp: line_break_def split: if_splits)
  then have "dropWhile not_NL r \<noteq> []" and "rest = tl (dropWhile not_NL r)"
    by (auto simp: dropWhile_eq_Nil_conv not_NL_def)
  then have "length rest < length (dropWhile not_NL r)"
    by (cases "dropWhile not_NL r") auto
  also have "\<dots> \<le> length r"
    by (rule length_dropWhile_le)
  finally show "(rest, r) \<in> measure length" by simp
qed

text \<open>
  The separator from \<open>.. part\<close> on: the marker line, the attribute lines, and an empty
  line. The result is the attribute text (the group) and the text after the match.
\<close>

definition sep_tail :: "string \<Rightarrow> (string \<times> string) option" where
  "sep_tail t =
     (if startswith t (''.. part'' @ [NL])
      then (let (a, r) = take_attr_lines (drop 8 t)
            in if startswith r [NL] then Some (a, tl r) else None)
      else None)"

text \<open>A match of \<open>PARTER\<close> that begins here; \<open>at_start\<close> says that here is offset 0.\<close>

definition match_parter :: "bool \<Rightarrow> string \<Rightarrow> (string \<times> string) option" where
  "match_parter at_start s =
     (case (if startswith s [NL, NL] then sep_tail (drop 2 s) else None) of
        Some m \<Rightarrow> Some m
      | None \<Rightarrow> if at_start then sep_tail s else None)"

declare take_attr_lines.simps [simp del]

lemma take_attr_lines_length: "length (snd (take_attr_lines r)) \<le> length r"
proof (induction r rule: take_attr_lines.induct)
  case (1 r)
  show ?case
  proof (cases "line_break r")
    case None
    then show ?thesis by (simp add: take_attr_lines.simps [of r])
  next
    case (Some p)
    obtain line rest where p: "p = (line, rest)" by (cases p)
    have "NL \<in> set r" and rest: "rest = tl (dropWhile not_NL r)"
      using Some p by (auto simp: line_break_def split: if_splits)
    then have "length rest \<le> length r"
      using length_dropWhile_le [of not_NL r] by simp
    moreover have "attr_line_ok line \<Longrightarrow> length (snd (take_attr_lines rest)) \<le> length rest"
      using "1.IH" [OF Some p [symmetric]] by simp
    ultimately show ?thesis
      using Some p by (auto simp: take_attr_lines.simps [of r] split: prod.splits)
  qed
qed

lemma sep_tail_shorter: "sep_tail t = Some (a, r) \<Longrightarrow> length r < length t"
proof -
  assume h: "sep_tail t = Some (a, r)"
  then have st: "startswith t (''.. part'' @ [NL])"
    by (simp add: sep_tail_def split: if_splits)
  then have len: "8 \<le> length t"
    by (auto simp: startswith_def dest: arg_cong [where f = length])
  obtain a' r' where tk: "take_attr_lines (drop 8 t) = (a', r')"
    by (cases "take_attr_lines (drop 8 t)")
  have "length r' \<le> length t - 8"
    using take_attr_lines_length [of "drop 8 t"] tk by simp
  moreover have "r = tl r'" and "r' \<noteq> []"
    using h st tk by (auto simp: sep_tail_def startswith_def split: if_splits)
  ultimately show ?thesis
    using len by (cases r') auto
qed

lemma match_parter_shorter: "match_parter b s = Some (a, r) \<Longrightarrow> length r < length s"
  by (auto simp: match_parter_def split: option.splits if_splits dest!: sep_tail_shorter)

text \<open>
  \<open>PARTER.split(text)\<close>: the text before the first match, then for every match its group
  and the text up to the next match (or the end). The scan goes on after a match's end.
\<close>

function parter_split_from :: "bool \<Rightarrow> string \<Rightarrow> string \<Rightarrow> string list" where
  "parter_split_from at_start acc s =
     (case match_parter at_start s of
        Some (g, rest) \<Rightarrow> rev acc # g # parter_split_from False [] rest
      | None \<Rightarrow>
          (case s of
             [] \<Rightarrow> [rev acc]
           | c # cs \<Rightarrow> parter_split_from False (c # acc) cs))"
  by pat_completeness auto
termination
  by (relation "measure (\<lambda>(b, acc, s). length s)") (auto dest: match_parter_shorter)

declare parter_split_from.simps [simp del]

definition parter_split :: "string \<Rightarrow> string list" where
  "parter_split text = parter_split_from True [] text"

text \<open>
  \<open>ATTRIBUTER.match(line)\<close> for \<^verbatim>\<open>^(\w+) *= *(.+?) *$\<close>: the two groups, or \<open>None\<close>.
  The value is what follows \<open>=\<close> without the spaces around it; when only spaces follow,
  the lazy group takes one of them. \<open>$\<close> also matches before a newline that ends the line.
\<close>

definition rstrip_SP :: "string \<Rightarrow> string" where
  "rstrip_SP s = rev (dropWhile is_SP (rev s))"

definition attributer_match :: "string \<Rightarrow> (string \<times> string) option" where
  "attributer_match line =
     (let w = takeWhile isword line;
          r1 = dropWhile is_SP (dropWhile isword line)
      in if w = [] \<or> \<not> startswith r1 ''='' then None
         else (let r2 = (if endswith (tl r1) [NL] then butlast (tl r1) else tl r1);
                   r3 = dropWhile is_SP r2
               in if NL \<in> set r2 then None
                  else if r3 \<noteq> [] then Some (w, rstrip_SP r3)
                  else if r2 = [] then None
                  else Some (w, '' '')))"

text \<open>
  \<open>textwrap.dedent\<close> of the standard library: lines of spaces and tabs only become empty,
  the margin is the longest common prefix of the indentations of the other non-empty lines,
  and the margin is removed from every line that starts with it.
\<close>

definition is_sp_tab :: "char \<Rightarrow> bool" where
  "is_sp_tab c = (c = SP \<or> c = CHR 0x09)"

fun common_prefix :: "string \<Rightarrow> string \<Rightarrow> string" where
  "common_prefix (x # xs) (y # ys) = (if x = y then x # common_prefix xs ys else [])"
| "common_prefix xs ys = []"

definition next_margin :: "string option \<Rightarrow> string \<Rightarrow> string option" where
  "next_margin margin indent =
     (case margin of
        None \<Rightarrow> Some indent
      | Some m \<Rightarrow>
          if startswith indent m then Some m
          else if startswith m indent then Some indent
          else Some (common_prefix m indent))"

definition dedent :: "string \<Rightarrow> string" where
  "dedent text =
     (let lines = map (\<lambda>l. if l \<noteq> [] \<and> list_all is_sp_tab l then [] else l) (split_on NL text);
          indents = map (takeWhile is_sp_tab) (filter (\<lambda>l. dropWhile is_sp_tab l \<noteq> []) lines);
          margin = foldl next_margin None indents
      in case margin of
           None \<Rightarrow> join [NL] lines
         | Some m \<Rightarrow>
             if m = [] then join [NL] lines
             else join [NL] (map (\<lambda>l. if startswith l m then drop (length m) l else l) lines))"

text \<open>
  A part: the dict that \<open>_part_strs2dicts\<close> builds, with the value of its key
  \<open>contents\<close> apart from the other keys, the attributes of the part.
\<close>

record part =
  attributes :: "(string \<times> string) list"
  contents :: "string list"

text \<open>
  \<open>dict(ATTRIBUTER.match(line).groups() for line in justified)\<close>: a line that does not
  match gives \<open>None.groups()\<close>, an \<open>AttributeError\<close>; a key written twice keeps its last
  value.
\<close>

fun attr_dict :: "string list \<Rightarrow> (string \<times> string) list \<Rightarrow> exc + (string \<times> string) list" where
  "attr_dict [] d = Inr d"
| "attr_dict (line # ls) d =
     (case attributer_match line of
        None \<Rightarrow> Inl (Exc AttributeError)
      | Some (k, v) \<Rightarrow> attr_dict ls (AList.update k v d))"

text \<open>\<open>_proc_part_def\<close>.\<close>

definition proc_part_def :: "string \<Rightarrow> exc + (string \<times> string) list" where
  "proc_part_def part_def =
     (if part_def = [] then Inr []
      else if \<not> startswith part_def '' '' then Inl (Exc PlotValueError)
      else (let justified = splitlines (dedent part_def)
            in if list_ex (\<lambda>s. startswith s '' '') justified then Inl (Exc PlotValueError)
               else attr_dict justified []))"

text \<open>
  \<open>_part_strs2dicts\<close>: the strings are taken two at a time, a part definition and the
  contents; \<open>pop(0)\<close> on the emptied list raises \<open>IndexError\<close>. Assigning the key
  \<open>contents\<close> replaces an attribute of that name.
\<close>

fun part_strs2dicts :: "string list \<Rightarrow> exc + part list" where
  "part_strs2dicts [] = Inr []"
| "part_strs2dicts [d] =
     (case proc_part_def d of Inl e \<Rightarrow> Inl e | Inr a \<Rightarrow> Inl (Exc IndexError))"
| "part_strs2dicts (d # c # rest) =
     (case proc_part_def d of
        Inl e \<Rightarrow> Inl e
      | Inr a \<Rightarrow>
          (case part_strs2dicts rest of
             Inl e \<Rightarrow> Inl e
           | Inr ps \<Rightarrow>
               Inr (\<lparr>attributes = AList.delete ''contents'' a, contents = splitlines c\<rparr> # ps)))"

text \<open>\<open>parse_parts\<close>.\<close>

definition parse_parts :: "string list \<Rightarrow> exc + part list" where
  "parse_parts lines =
     (let text = strip (join [NL] lines);
          part_strs = parter_split text
      in case part_strs of
           [] \<Rightarrow> Inl (Exc IndexError)
         | [p] \<Rightarrow> Inr [\<lparr>attributes = [], contents = splitlines p\<rparr>]
         | p # ps \<Rightarrow>
             if p = [] then part_strs2dicts ps
             else part_strs2dicts ([] # p # ps))"

section \<open>Doctest handling\<close>

text \<open>
  \<open>compile(text, '<string>', 'exec')\<close> is the interpreter's: the parameter \<open>py_compile\<close>
  gives the exception it raises on a text, \<open>None\<close> when the text compiles.

  \<open>re.compile(r'^\s*>>>', re.M).search(text)\<close>: a match begins at the start of the text or
  after a newline, passes all the whitespace there (\<open>\s\<close> takes newlines too; \<open>>\<close> is
  not whitespace, so nothing is given back), and needs \<open>>>>\<close> next.
\<close>

fun prompt_search :: "bool \<Rightarrow> string \<Rightarrow> bool" where
  "prompt_search bol [] = False"
| "prompt_search bol (c # cs) =
     ((bol \<and> startswith (dropWhile isspace (c # cs)) ''>>>'') \<or> prompt_search (c = NL) cs)"

text \<open>\<open>contains_doctest\<close>; \<open>except SyntaxError\<close> lets any other exception through.\<close>

definition contains_doctest :: "(string \<Rightarrow> exc option) \<Rightarrow> string \<Rightarrow> exc + bool" where
  "contains_doctest py_compile text =
     (case py_compile text of
        None \<Rightarrow> Inr False
      | Some e \<Rightarrow> if catches SyntaxError e then Inr (prompt_search True text) else Inl e)"

text \<open>
  \<open>re.match(r'^\s*(>>>|\.\.\.) (.*)$', line)\<close> on a line of \<open>text.split("\n")\<close>, which has
  no newline: the second group, or \<open>None\<close>.
\<close>

definition doctest_line :: "string \<Rightarrow> string option" where
  "doctest_line line =
     (let r = dropWhile isspace line
      in if startswith r ''>>> '' \<or> startswith r ''... '' then Some (drop 4 r) else None)"

text \<open>The loop of \<open>unescape_doctest\<close> over the lines.\<close>

fun unescape_lines :: "string list \<Rightarrow> string" where
  "unescape_lines [] = []"
| "unescape_lines (line # ls) =
     (case doctest_line line of
        Some code \<Rightarrow> code @ [NL]
      | None \<Rightarrow> if strip line \<noteq> [] then ''# '' @ strip line @ [NL] else [NL])
     @ unescape_lines ls"

definition unescape_doctest :: "(string \<Rightarrow> exc option) \<Rightarrow> string \<Rightarrow> exc + string" where
  "unescape_doctest py_compile text =
     (case contains_doctest py_compile text of
        Inl e \<Rightarrow> Inl e
      | Inr has \<Rightarrow> if \<not> has then Inr text else Inr (unescape_lines (split_on NL text)))"

text \<open>
  A line whose first non-whitespace characters are \<open>>>>\<close>, in the words of the
  specification; the lines are those that newlines separate.
\<close>

definition has_prompt_line :: "string \<Rightarrow> bool" where
  "has_prompt_line text =
     list_ex (\<lambda>line. startswith (dropWhile isspace line) ''>>>'') (split_on NL text)"

text \<open>The test of one line: after its leading whitespace comes \<open>>>>\<close>.\<close>

definition prompt_first :: "string \<Rightarrow> bool" where
  "prompt_first s = startswith (dropWhile isspace s) ''>>>''"

text \<open>
  \<open>remove_coding\<close>: every match of \<^verbatim>\<open>^#\s*-\*-\s*coding:\s*.*-\*-$\<close> (with
  \<open>re.MULTILINE\<close>) is replaced by the empty string. A match begins at the start of a line
  with \<open>#\<close>; each \<open>\s*\<close> passes all the whitespace there, newlines too, since what must
  follow is not whitespace; after \<open>coding:\<close> and its whitespace the rest of that line must
  end with \<open>-*-\<close>, and the match ends with the line. \<open>coding_match\<close> gives the text after
  the match.
\<close>

definition coding_match :: "string \<Rightarrow> string option" where
  "coding_match s =
     (if \<not> startswith s ''#'' then None
      else (let s1 = dropWhile isspace (tl s)
            in if \<not> startswith s1 ''-*-'' then None
               else (let s2 = dropWhile isspace (drop 3 s1)
                     in if \<not> startswith s2 ''coding:'' then None
                        else (let s4 = dropWhile isspace (drop 7 s2)
                              in if endswith (takeWhile not_NL s4) ''-*-''
                                 then Some (dropWhile not_NL s4) else None))))"

lemma coding_match_shorter: "coding_match s = Some r \<Longrightarrow> length r < length s"
proof -
  assume h: "coding_match s = Some r"
  then have ne: "s \<noteq> []"
    by (auto simp: coding_match_def startswith_def)
  let ?s1 = "dropWhile isspace (tl s)"
  let ?s2 = "dropWhile isspace (drop 3 ?s1)"
  let ?s4 = "dropWhile isspace (drop 7 ?s2)"
  have "r = dropWhile not_NL ?s4"
    using h by (simp add: coding_match_def Let_def split: if_splits)
  then have "length r \<le> length ?s4"
    by (simp add: length_dropWhile_le)
  also have "\<dots> \<le> length (drop 7 ?s2)"
    by (rule length_dropWhile_le)
  also have "\<dots> \<le> length ?s2" by simp
  also have "\<dots> \<le> length (drop 3 ?s1)"
    by (rule length_dropWhile_le)
  also have "\<dots> \<le> length ?s1" by simp
  also have "\<dots> \<le> length (tl s)"
    by (rule length_dropWhile_le)
  also have "\<dots> < length s" using ne by simp
  finally show ?thesis .
qed

function remove_coding_from :: "bool \<Rightarrow> string \<Rightarrow> string" where
  "remove_coding_from bol s =
     (case (if bol then coding_match s else None) of
        Some rest \<Rightarrow> remove_coding_from False rest
      | None \<Rightarrow>
          (case s of
             [] \<Rightarrow> []
           | c # cs \<Rightarrow> c # remove_coding_from (c = NL) cs))"
  by pat_completeness auto
termination
  by (relation "measure (\<lambda>(b, s). length s)")
    (auto dest: coding_match_shorter split: if_splits)

declare remove_coding_from.simps [simp del]

definition remove_coding :: "string \<Rightarrow> string" where
  "remove_coding text = remove_coding_from True text"

section \<open>The code runner\<close>

text \<open>
  The values of a namespace. \<open>PIndex t i\<close> is an object of a type \<open>t\<close> other than
  \<open>int\<close> whose \<open>__index__\<close> gives \<open>i\<close> (a \<open>numpy.int64\<close>), \<open>PBytes\<close> a
  \<open>bytes\<close> with its items, \<open>PRange start stop step\<close> a \<open>range\<close>. \<open>PRef a\<close> is a
  mutable object (a list, a dict, a set) that may be the value of several names at once: it
  lives at address \<open>a\<close> of a store of objects, which holds its content, and a change made
  to it through one name is seen through every other. \<open>PList\<close> is a list that no other
  name refers to. \<open>PObj\<close> stands for an object of any other type (a float, a function, a
  slice), named by its type; it is no \<open>Sequence\<close> and no list index. A namespace is a
  dict, kept as an association list in insertion order.
\<close>

datatype pyval =
    PNone
  | PBool bool
  | PInt int
  | PIndex string int
  | PStr string
  | PBytes "nat list"
  | PRange int int int
  | PTuple "pyval list"
  | PList "pyval list"
  | PRef nat
  | PObj string

type_synonym ns = "(string \<times> pyval) list"

text \<open>
  The state of the process that \<open>run_code\<close> and \<open>render_figures\<close> change: the working
  directory, the directories that exist (path names are the absolute names that
  \<open>os.getcwd\<close> returns), \<open>sys.path\<close>, \<open>sys.argv\<close>, \<open>sys.stdout\<close>, the figure
  managers that \<open>Gcf\<close> tracks (by number, in the order of their registration), and
  matplotlib's \<open>rcParams\<close>. A stream is a stream of the process or an \<open>io.StringIO\<close>
  with its text. The name \<open>sys.path\<close> is bound to a list, unless some code has bound it to
  an object of another type: \<open>PathTuple\<close> is a tuple, which has the items of a list but
  neither \<open>insert\<close> nor item assignment.
\<close>

datatype stream = Stream string | StringIO string

datatype path_val = PathList "string list" | PathTuple "string list"

record world =
  cwd :: string
  dirs :: "string list"
  sys_path :: path_val
  sys_argv :: "string option list"
  sys_stdout :: stream
  figs :: "nat list"
  rcparams :: "(string \<times> string) list"

text \<open>
  What the interpreter, the operating system and matplotlib do is not code of the
  repository; a \<open>host\<close> gives it. \<open>py_exec code (ns, w)\<close> is \<open>six.exec_(code, ns)\<close>:
  the exception it raises, if any, and the namespace and the process state it leaves;
  the executed code may change every part of the process state: it may change the working
  directory, remove and make directories, and bind \<open>sys.path\<close>, \<open>sys.argv\<close> and
  \<open>sys.stdout\<close> anew. \<open>py_compile\<close> is \<open>compile\<close>, \<open>py_int\<close> is \<open>int\<close> on a
  string, \<open>abspath\<close> is \<open>os.path.abspath\<close> under a working directory, \<open>savefig\<close> is
  \<open>figman.canvas.figure.savefig\<close> of a figure, and \<open>rc_file_defaults\<close> are the
  parameters that \<open>matplotlib.rc_file_defaults()\<close> restores.
\<close>

record host =
  py_compile :: "string \<Rightarrow> exc option"
  py_exec :: "string \<Rightarrow> ns \<times> world \<Rightarrow> exc option \<times> ns \<times> world"
  py_int :: "string \<Rightarrow> int option"
  abspath :: "string \<Rightarrow> string \<Rightarrow> string"
  savefig :: "nat \<Rightarrow> string \<Rightarrow> int \<Rightarrow> exc option"
  rc_file_defaults :: "(string \<times> string) list"

text \<open>
  \<open>os.getcwd()\<close> and \<open>os.chdir(d)\<close>: both raise \<open>FileNotFoundError\<close>, the first
  when the working directory has been removed, the second when \<open>d\<close> is no directory.
\<close>

definition getcwd :: "world \<Rightarrow> exc + string" where
  "getcwd w = (if cwd w \<in> set (dirs w) then Inr (cwd w) else Inl (Exc FileNotFoundError))"

definition chdir :: "string \<Rightarrow> world \<Rightarrow> exc + world" where
  "chdir d w = (if d \<in> set (dirs w) then Inr (w\<lparr>cwd := d\<rparr>) else Inl (Exc FileNotFoundError))"

text \<open>
  \<open>list(sys.path)\<close>, \<open>sys.path.insert(0, d)\<close> and \<open>sys.path[:] = xs\<close>: a tuple has
  no \<open>insert\<close> (\<open>AttributeError\<close>) and no item assignment (\<open>TypeError\<close>).
\<close>

fun path_items :: "path_val \<Rightarrow> string list" where
  "path_items (PathList xs) = xs"
| "path_items (PathTuple xs) = xs"

fun path_insert0 :: "string \<Rightarrow> path_val \<Rightarrow> exc + path_val" where
  "path_insert0 d (PathList xs) = Inr (PathList (d # xs))"
| "path_insert0 d (PathTuple xs) = Inl (Exc AttributeError)"

fun path_assign :: "string list \<Rightarrow> path_val \<Rightarrow> exc + path_val" where
  "path_assign xs (PathList ys) = Inr (PathList xs)"
| "path_assign xs (PathTuple ys) = Inl (Exc TypeError)"

fun is_path_list :: "path_val \<Rightarrow> bool" where
  "is_path_list (PathList xs) = True"
| "is_path_list (PathTuple xs) = False"

text \<open>
  The statements of \<open>run_code\<close> before its \<open>try\<close>: the working directory and
  \<open>sys.path\<close> are changed, \<open>sys.argv\<close> and \<open>sys.stdout\<close> replaced. A statement
  that raises ends the call with the process state as it is by then: unchanged if
  \<open>os.getcwd\<close> or \<open>os.chdir\<close> raises, with the new working directory if
  \<open>sys.path.insert\<close> raises.
\<close>

definition run_code_enter :: "string option \<Rightarrow> string option \<Rightarrow> world \<Rightarrow> exc \<times> world + world" where
  "run_code_enter code_path workdir w =
     (case getcwd w of
        Inl e \<Rightarrow> Inl (e, w)
      | Inr pwd \<Rightarrow>
          (let workdir1 = (case workdir of None \<Rightarrow> pwd | Some d \<Rightarrow> d)
           in case chdir workdir1 w of
                Inl e \<Rightarrow> Inl (e, w)
              | Inr w1 \<Rightarrow>
                  (case path_insert0 workdir1 (sys_path w1) of
                     Inl e \<Rightarrow> Inl (e, w1)
                   | Inr p \<Rightarrow>
                       Inr (w1\<lparr>sys_path := p,
                                sys_argv := [code_path],
                                sys_stdout := StringIO []\<rparr>))))"

text \<open>
  One step of the \<open>try\<close> block after another: a step runs in the state the step before
  left, unless that one raised.
\<close>

definition and_then ::
  "exc option \<times> ns \<times> world \<Rightarrow> (ns \<times> world \<Rightarrow> exc option \<times> ns \<times> world)
     \<Rightarrow> exc option \<times> ns \<times> world" where
  "and_then r f = (case r of (Some e, s) \<Rightarrow> (Some e, s) | (None, s) \<Rightarrow> f s)"

abbreviation QUOTE :: char where
  "QUOTE \<equiv> CHR 0x27"

text \<open>
  The steps before the code itself runs: \<open>unescape_doctest\<close>, the \<open>pre_code\<close> when the
  namespace is empty, the binding of \<open>print\<close>, the binding of \<open>__name__\<close> when the code
  mentions \<open>__main__\<close>, and \<open>remove_coding\<close>. The result is the exception raised, if any,
  the code to run, the namespace and the process state.
\<close>

definition run_code_prepare ::
  "host \<Rightarrow> string \<Rightarrow> string option \<Rightarrow> ns \<times> world \<Rightarrow> exc option \<times> string \<times> ns \<times> world" where
  "run_code_prepare h code pre_code s =
     (case unescape_doctest (py_compile h) code of
        Inl e \<Rightarrow> (Some e, code, s)
      | Inr code1 \<Rightarrow>
          (case (case pre_code of
                   None \<Rightarrow> (None, s)
                 | Some p \<Rightarrow> if p \<noteq> [] \<and> fst s = [] then py_exec h p s else (None, s)) of
             (Some e, s1) \<Rightarrow> (Some e, code1, s1)
           | (None, ns1, w1) \<Rightarrow>
               (let ns2 = AList.update ''print'' (PObj ''_dummy_print'') ns1
                in case (if contains code1 ''__main__''
                         then py_exec h (''__name__ = '' @ [QUOTE] @ ''__main__'' @ [QUOTE]) (ns2, w1)
                         else (None, ns2, w1)) of
                     (Some e, s3) \<Rightarrow> (Some e, code1, s3)
                   | (None, s3) \<Rightarrow> (None, remove_coding code1, s3))))"

text \<open>
  The code runs. With \<open>raises\<close> given, \<open>except raises: pass\<close> drops the exceptions of that
  class; nothing is done when the code raises nothing.
\<close>

definition run_code_main ::
  "host \<Rightarrow> string \<Rightarrow> pyclass option \<Rightarrow> ns \<times> world \<Rightarrow> exc option \<times> ns \<times> world" where
  "run_code_main h code raises s =
     (case raises of
        None \<Rightarrow> py_exec h code s
      | Some cls \<Rightarrow>
          (case py_exec h code s of
             (Some e, s1) \<Rightarrow> if catches cls e then (None, s1) else (Some e, s1)
           | (None, s1) \<Rightarrow> (None, s1)))"

text \<open>\<open>if function_name: six.exec_(function_name + "()", ns)\<close>.\<close>

definition run_code_function ::
  "host \<Rightarrow> string option \<Rightarrow> ns \<times> world \<Rightarrow> exc option \<times> ns \<times> world" where
  "run_code_function h function_name s =
     (case function_name of
        None \<Rightarrow> (None, s)
      | Some f \<Rightarrow> if f \<noteq> [] then py_exec h (f @ ''()'') s else (None, s))"

text \<open>
  \<open>except (Exception, SystemExit): raise PlotError(traceback.format_exc())\<close>: any other
  exception goes on as it is.
\<close>

definition to_plot_error :: "exc \<Rightarrow> exc" where
  "to_plot_error e = (if catches Exception e \<or> catches SystemExit e then PlotErrorOf e else e)"

text \<open>
  The \<open>finally\<close> block; \<open>r\<close> is the exception on its way out. Its four statements
  run one after the other: if \<open>os.chdir(pwd)\<close> raises, or \<open>sys.path[:] = old_sys_path\<close>
  does, that exception takes the place of \<open>r\<close> and the statements after it are not
  reached.
\<close>

definition run_code_leave ::
  "string \<Rightarrow> string option list \<Rightarrow> string list \<Rightarrow> stream
     \<Rightarrow> exc option \<times> ns \<times> world \<Rightarrow> exc option \<times> ns \<times> world" where
  "run_code_leave pwd old_sys_argv old_sys_path stdout r =
     (case r of (x, ns1, w1) \<Rightarrow>
        (case chdir pwd w1 of
           Inl e \<Rightarrow> (Some e, ns1, w1)
         | Inr w2 \<Rightarrow>
             (let w3 = w2\<lparr>sys_argv := old_sys_argv\<rparr>
              in case path_assign old_sys_path (sys_path w3) of
                   Inl e \<Rightarrow> (Some e, ns1, w3)
                 | Inr p \<Rightarrow> (x, ns1, w3\<lparr>sys_path := p, sys_stdout := stdout\<rparr>))))"

text \<open>
  \<open>run_code\<close>. The result is the exception that leaves the call, if any, the namespace
  dict as the call leaves it (the value returned when nothing is raised), and the process
  state.
\<close>

definition run_code ::
  "host \<Rightarrow> string \<Rightarrow> string option \<Rightarrow> ns option \<Rightarrow> string option \<Rightarrow> string option
     \<Rightarrow> string option \<Rightarrow> pyclass option \<Rightarrow> world \<Rightarrow> exc option \<times> ns \<times> world" where
  "run_code h code code_path ns function_name workdir pre_code raises w =
     (let pwd = cwd w;
          old_sys_path = path_items (sys_path w);
          old_sys_argv = sys_argv w;
          stdout = sys_stdout w;
          ns0 = (case ns of None \<Rightarrow> [] | Some n \<Rightarrow> n)
      in case run_code_enter code_path workdir w of
           Inl (e, w1) \<Rightarrow> (Some e, ns0, w1)
         | Inr w1 \<Rightarrow>
             (let body =
                    (case run_code_prepare h code pre_code (ns0, w1) of
                       (Some e, code1, s) \<Rightarrow> (Some e, s)
                     | (None, code1, s) \<Rightarrow>
                         and_then (run_code_main h code1 raises s) (run_code_function h function_name))
              in run_code_leave pwd old_sys_argv old_sys_path stdout
                   (case body of (x, s) \<Rightarrow> (map_option to_plot_error x, s))))"

text \<open>
  The process state \<open>w'\<close> at the end of a call that started in \<open>w\<close> lets the
  \<open>finally\<close> block do its work: the directory in which the call started exists, and
  \<open>sys.path\<close> is a list.
\<close>

definition restorable :: "world \<Rightarrow> world \<Rightarrow> bool" where
  "restorable w w' = (cwd w \<in> set (dirs w') \<and> is_path_list (sys_path w'))"

section \<open>The figure renderer\<close>

text \<open>
  The configuration values that \<open>render_figures\<close> reads. \<open>nbplot_formats\<close> is a string
  (Sphinx before 1.3) or a list whose items are strings or pairs; \<open>FmtPair\<close> is a tuple or
  list of length two, already read by \<open>str\<close> and \<open>int\<close>, and \<open>FmtOther\<close> any other item.
\<close>

datatype fmt_entry = FmtStr string | FmtPair string int | FmtOther

datatype formats_conf = FormatsStr string | FormatsList "fmt_entry list"

record config =
  nbplot_formats :: formats_conf
  nbplot_rcparams :: "(string \<times> string) list"
  nbplot_working_directory :: "string option"
  nbplot_pre_code :: "string option"

text \<open>\<open>default_dpi.get(fmt, 80)\<close>.\<close>

definition default_dpi :: "string \<Rightarrow> int" where
  "default_dpi fmt =
     (if fmt = ''png'' then 80 else if fmt = ''hires.png'' then 200
      else if fmt = ''pdf'' then 200 else 80)"

text \<open>
  One item of the format list. \<open>suffix,dpi = fmt.split(':')\<close> raises \<open>ValueError\<close>
  unless there are exactly two pieces, and so does \<open>int(dpi)\<close> on a text that is no number.
\<close>

definition parse_format :: "host \<Rightarrow> fmt_entry \<Rightarrow> exc + string \<times> int" where
  "parse_format h fmt =
     (case fmt of
        FmtStr s \<Rightarrow>
          if CHR '':'' \<in> set s
          then (case split_on CHR '':'' s of
                  [suffix, dpi] \<Rightarrow>
                    (case py_int h dpi of
                       None \<Rightarrow> Inl (Exc ValueError)
                     | Some d \<Rightarrow> Inr (suffix, d))
                | _ \<Rightarrow> Inl (Exc ValueError))
          else Inr (s, default_dpi s)
      | FmtPair suffix dpi \<Rightarrow> Inr (suffix, dpi)
      | FmtOther \<Rightarrow> Inl (Exc PlotError))"

fun parse_format_list :: "host \<Rightarrow> fmt_entry list \<Rightarrow> exc + (string \<times> int) list" where
  "parse_format_list h [] = Inr []"
| "parse_format_list h (fmt # rest) =
     (case parse_format h fmt of
        Inl e \<Rightarrow> Inl e
      | Inr f \<Rightarrow>
          (case parse_format_list h rest of
             Inl e \<Rightarrow> Inl e
           | Inr fs \<Rightarrow> Inr (f # fs)))"

definition parse_formats :: "host \<Rightarrow> formats_conf \<Rightarrow> exc + (string \<times> int) list" where
  "parse_formats h plot_formats =
     (case plot_formats of
        FormatsStr s \<Rightarrow> parse_format_list h (map FmtStr (split_on CHR '','' s))
      | FormatsList fs \<Rightarrow> parse_format_list h fs)"

text \<open>\<open>os.path.dirname\<close> and \<open>os.path.join\<close> of two names, on POSIX.\<close>

definition is_slash :: "char \<Rightarrow> bool" where
  "is_slash c = (c = CHR ''/'')"

definition os_dirname :: "string \<Rightarrow> string" where
  "os_dirname p =
     (let head = rev (dropWhile (\<lambda>c. \<not> is_slash c) (rev p))
      in if head \<noteq> [] \<and> \<not> list_all is_slash head then rev (dropWhile is_slash (rev head))
         else head)"

definition pjoin :: "string \<Rightarrow> string \<Rightarrow> string" where
  "pjoin a b =
     (if startswith b ''/'' then b
      else if a = [] \<or> endswith a ''/'' then a @ b
      else a @ ''/'' @ b)"

text \<open>\<open>_check_wd\<close>; the configuration value is a string, so \<open>abspath\<close> does not raise.\<close>

definition check_wd :: "host \<Rightarrow> world \<Rightarrow> string \<Rightarrow> exc + string" where
  "check_wd h w path =
     (let abs_path = abspath h (cwd w) path
      in if abs_path \<notin> set (dirs w) then Inl (Exc OSError) else Inr abs_path)"

text \<open>\<open>class ImageFile\<close>.\<close>

record image_file =
  basename :: string
  dirname :: string
  formats :: "string list"

definition filename :: "image_file \<Rightarrow> string \<Rightarrow> string" where
  "filename self format = pjoin (dirname self) (basename self @ ''.'' @ format)"

text \<open>
  \<open>"%02d" % j\<close>: the decimal digits of \<open>j\<close>, with zeros in front up to a width of two.
\<close>

definition digit_char :: "nat \<Rightarrow> char" where
  "digit_char d = ''0123456789'' ! (d mod 10)"

function decimal :: "nat \<Rightarrow> string" where
  "decimal n = (if n < 10 then [digit_char n] else decimal (n div 10) @ [digit_char (n mod 10)])"
  by pat_completeness auto
termination
  by (relation "measure id") auto

declare decimal.simps [simp del]

definition fmt_02d :: "nat \<Rightarrow> string" where
  "fmt_02d j = replicate (2 - length (decimal j)) CHR ''0'' @ decimal j"

text \<open>
  The loop over the formats for one figure: \<open>except Exception\<close> turns a failure of
  \<open>savefig\<close> into a \<open>PlotError\<close> with its trace.
\<close>

fun save_formats :: "host \<Rightarrow> nat \<Rightarrow> image_file \<Rightarrow> (string \<times> int) list \<Rightarrow> exc + image_file" where
  "save_formats h figman img [] = Inr img"
| "save_formats h figman img ((format, dpi) # rest) =
     (case savefig h figman (filename img format) dpi of
        Some e \<Rightarrow> Inl (if catches Exception e then PlotErrorOf e else e)
      | None \<Rightarrow> save_formats h figman (img\<lparr>formats := formats img @ [format]\<rparr>) rest)"

text \<open>
  The loop \<open>for j, figman in enumerate(fig_managers)\<close> at the end of \<open>render_figures\<close>;
  \<open>n\<close> is \<open>len(fig_managers)\<close> and \<open>j\<close> the index of the next figure.
\<close>

fun harvest_from ::
  "host \<Rightarrow> string \<Rightarrow> string \<Rightarrow> (string \<times> int) list \<Rightarrow> nat \<Rightarrow> nat \<Rightarrow> nat list
     \<Rightarrow> exc + image_file list" where
  "harvest_from h output_base output_dir fmts n j [] = Inr []"
| "harvest_from h output_base output_dir fmts n j (figman # rest) =
     (let img = \<lparr>basename = (if n = 1 then output_base else output_base @ ''_'' @ fmt_02d j),
                  dirname = output_dir, formats = []\<rparr>
      in case save_formats h figman img fmts of
           Inl e \<Rightarrow> Inl e
         | Inr img1 \<Rightarrow>
             (case harvest_from h output_base output_dir fmts n (Suc j) rest of
                Inl e \<Rightarrow> Inl e
              | Inr imgs \<Rightarrow> Inr (img1 # imgs)))"

definition harvest ::
  "host \<Rightarrow> string \<Rightarrow> string \<Rightarrow> (string \<times> int) list \<Rightarrow> nat list \<Rightarrow> exc + image_file list" where
  "harvest h output_base output_dir fmts fig_managers =
     harvest_from h output_base output_dir fmts (length fig_managers) 0 fig_managers"

text \<open>
  \<open>render_figures\<close>. \<open>plot_context\<close> is the module's dict of that name; the call returns
  the images or the exception, the \<open>plot_context\<close> it leaves and the process state. With
  \<open>context\<close> the namespace of the code is the \<open>plot_context\<close> itself, so what the code
  leaves in it stays there, also when the call raises.
\<close>

definition render_figures ::
  "host \<Rightarrow> string \<Rightarrow> string option \<Rightarrow> string \<Rightarrow> string \<Rightarrow> config \<Rightarrow> bool \<Rightarrow> string option
     \<Rightarrow> bool \<Rightarrow> bool \<Rightarrow> pyclass option \<Rightarrow> ns \<times> world
     \<Rightarrow> (exc + image_file list) \<times> ns \<times> world" where
  "render_figures h code code_path output_dir output_base conf context function_name
     context_reset close_figs raises s =
     (case s of (plot_context, w) \<Rightarrow>
        (case parse_formats h (nbplot_formats conf) of
           Inl e \<Rightarrow> (Inl e, plot_context, w)
         | Inr fmts \<Rightarrow>
             (let w1 = (if context_reset
                        then w\<lparr>figs := [],
                               rcparams := foldl (\<lambda>rc (k, v). AList.update k v rc)
                                             (rc_file_defaults h) (nbplot_rcparams conf)\<rparr>
                        else w);
                  plot_context1 = (if context_reset then [] else plot_context);
                  ns = (if context then plot_context1 else []);
                  close_figs1 = (\<not> context \<or> close_figs)
              in case (case nbplot_working_directory conf of
                         Some d \<Rightarrow> map_sum id Some (check_wd h w1 d)
                       | None \<Rightarrow>
                           (case code_path of
                              Some p \<Rightarrow> Inr (Some (abspath h (cwd w1) (os_dirname p)))
                            | None \<Rightarrow> Inr None)) of
                   Inl e \<Rightarrow> (Inl e, plot_context1, w1)
                 | Inr workdir \<Rightarrow>
                     (let w2 = (if close_figs1 then w1\<lparr>figs := []\<rparr> else w1)
                      in case run_code h code code_path (Some ns) function_name workdir
                                (nbplot_pre_code conf) raises w2 of
                           (x, ns1, w3) \<Rightarrow>
                             (let plot_context2 = (if context then ns1 else plot_context1)
                              in case x of
                                   Some e \<Rightarrow> (Inl e, plot_context2, w3)
                                 | None \<Rightarrow>
                                     (harvest h output_base output_dir fmts (figs w3),
                                      plot_context2, w3))))))"

section \<open>Flag namespaces and part selection\<close>

text \<open>
  A namespace of flags is a dict object that several names may refer to, so dict objects
  live in a heap: an address holds the bindings of the dict there, and \<open>next_addr\<close> is the
  first address not yet given out. The mutable objects that the values of the dicts refer to
  (\<open>PRef\<close>) live in a store of their own, \<open>objects\<close>, which holds their content. The
  build environment holds the two \<open>defaultdict\<close>s that \<open>do_builder_init\<close> creates, from
  document names to the reset marker and to the address of the namespace of flags, the name
  of the document being read, and the address of the dict \<open>config.nbplot_flags\<close>.
\<close>

type_synonym addr = nat

type_synonym store = "nat \<Rightarrow> pyval"

record env =
  docname :: string
  nbplot_reset_markers :: "string \<rightharpoonup> bool"
  nbplot_flag_namespaces :: "string \<rightharpoonup> addr"
  nbplot_flags :: addr
  heap :: "addr \<Rightarrow> ns"
  next_addr :: addr
  objects :: store

text \<open>
  A new dict object with the given bindings: \<open>dict()\<close> and \<open>d.copy()\<close>. The copy is
  shallow: it holds the values of the dict copied, so a \<open>PRef\<close> in it is the same object.
\<close>

definition new_dict :: "env \<Rightarrow> ns \<Rightarrow> addr \<times> env" where
  "new_dict e bindings =
     (next_addr e,
      e\<lparr>heap := (heap e)(next_addr e := bindings), next_addr := Suc (next_addr e)\<rparr>)"

text \<open>\<open>do_builder_init\<close>: both \<open>defaultdict\<close>s start without a key.\<close>

definition do_builder_init :: "env \<Rightarrow> env" where
  "do_builder_init e =
     e\<lparr>nbplot_reset_markers := Map.empty, nbplot_flag_namespaces := Map.empty\<rparr>"

text \<open>\<open>do_purge_doc\<close>.\<close>

definition do_purge_doc :: "env \<Rightarrow> string \<Rightarrow> env" where
  "do_purge_doc e dn =
     (let e1 = e\<lparr>nbplot_reset_markers := (nbplot_reset_markers e)(dn \<mapsto> False)\<rparr>;
          (a, e2) = new_dict e1 (heap e1 (nbplot_flags e1))
      in e2\<lparr>nbplot_flag_namespaces := (nbplot_flag_namespaces e2)(dn \<mapsto> a)\<rparr>)"

text \<open>
  \<open>env.nbplot_flag_namespaces[dn]\<close>: the \<open>defaultdict(dict)\<close> makes and stores a new
  empty dict for a key it does not hold.
\<close>

definition flag_namespace :: "env \<Rightarrow> string \<Rightarrow> addr \<times> env" where
  "flag_namespace e dn =
     (case nbplot_flag_namespaces e dn of
        Some a \<Rightarrow> (a, e)
      | None \<Rightarrow>
          (let (a, e1) = new_dict e []
           in (a, e1\<lparr>nbplot_flag_namespaces := (nbplot_flag_namespaces e1)(dn \<mapsto> a)\<rparr>)))"

text \<open>
  \<open>NBPlotFlags.run\<close>: the content is executed with the namespace of the document as its
  locals, so its assignments change that dict. \<open>ex\<close> is the interpreter on the text, the
  bindings and the store of mutable objects: the exception raised, if any, the bindings
  left, and the store left (the code may change the objects that its names refer to).
\<close>

definition nbplot_flags_run ::
  "(string \<Rightarrow> ns \<times> store \<Rightarrow> exc option \<times> ns \<times> store) \<Rightarrow> string list \<Rightarrow> env
     \<Rightarrow> exc option \<times> env" where
  "nbplot_flags_run ex content e =
     (let (a, e1) = flag_namespace e (docname e);
          (x, bindings, st) = ex (join [NL] content) (heap e1 a, objects e1)
      in (x, e1\<lparr>heap := (heap e1)(a := bindings), objects := st\<rparr>))"

text \<open>The object that a value is: for a \<open>PRef\<close>, the content that the store holds.\<close>

fun deref :: "store \<Rightarrow> pyval \<Rightarrow> pyval" where
  "deref st (PRef a) = st a"
| "deref st v = v"

text \<open>
  The items of \<open>range(start, stop, step)\<close>; the step of a range is not zero.
\<close>

definition range_items :: "int \<Rightarrow> int \<Rightarrow> int \<Rightarrow> int list" where
  "range_items start stop step =
     (if 0 < step
      then map (\<lambda>k. start + int k * step) [0..<nat ((stop - start + step - 1) div step)]
      else if step < 0
      then map (\<lambda>k. start + int k * step) [0..<nat ((start - stop - step - 1) div (- step))]
      else [])"

text \<open>
  \<open>isinstance(v, Sequence)\<close> and the items of a sequence in order; the items of a string
  are its characters as strings, the items of a \<open>bytes\<close> and of a \<open>range\<close> are
  \<open>int\<close>s.
\<close>

fun is_sequence :: "pyval \<Rightarrow> bool" where
  "is_sequence (PStr s) = True"
| "is_sequence (PBytes bs) = True"
| "is_sequence (PRange start stop step) = True"
| "is_sequence (PTuple xs) = True"
| "is_sequence (PList xs) = True"
| "is_sequence v = False"

fun items :: "pyval \<Rightarrow> pyval list" where
  "items (PStr s) = map (\<lambda>c. PStr [c]) s"
| "items (PBytes bs) = map (\<lambda>b. PInt (int b)) bs"
| "items (PRange start stop step) = map PInt (range_items start stop step)"
| "items (PTuple xs) = xs"
| "items (PList xs) = xs"
| "items v = []"

text \<open>
  \<open>indices if isinstance(indices, Sequence) else (indices,)\<close>, as the list of the items;
  \<open>st\<close> is the store after the evaluation, where a mutable value has its content.
\<close>

definition index_items :: "store \<Rightarrow> pyval \<Rightarrow> pyval list" where
  "index_items st indices =
     (if is_sequence (deref st indices) then items (deref st indices) else [indices])"

text \<open>
  \<open>_get_parts\<close>; \<open>expr\<close> is \<open>self.options[option_name]\<close>, \<open>None\<close> when the option is
  not given. \<open>ev\<close> is \<open>eval\<close> on the text, the bindings of its globals and the store of
  mutable objects: the value or the exception, the bindings left (\<open>eval\<close> adds
  \<open>__builtins__\<close>) and the store left. The globals are a copy, a new dict. The result is
  the tuple or sequence of indices, as the list of its items.
\<close>

definition get_parts ::
  "(string \<Rightarrow> ns \<times> store \<Rightarrow> (exc + pyval) \<times> ns \<times> store) \<Rightarrow> string option \<Rightarrow> env
     \<Rightarrow> (exc + pyval list) \<times> env" where
  "get_parts ev expr e =
     (case expr of
        None \<Rightarrow> (Inr [PInt 0], e)
      | Some source \<Rightarrow>
          (let (a, e1) = flag_namespace e (docname e);
               (name_space, e2) = new_dict e1 (heap e1 a);
               (r, bindings, st) = ev source (heap e2 name_space, objects e2);
               e3 = e2\<lparr>heap := (heap e2)(name_space := bindings), objects := st\<rparr>
           in case r of
                Inl x \<Rightarrow> (Inl x, e3)
              | Inr indices \<Rightarrow> (Inr (index_items st indices), e3)))"

text \<open>
  \<open>parts[i]\<close> on the list of parts: an \<open>int\<close> (a \<open>bool\<close> is one), or an object with
  \<open>__index__\<close>, counts from the end when negative and raises \<open>IndexError\<close> out of
  range; any other index raises \<open>TypeError\<close> (a slice gives a list, and \<open>['contents']\<close>
  on a list raises it).
\<close>

definition int_index :: "part list \<Rightarrow> int \<Rightarrow> exc + part" where
  "int_index parts i =
     (if 0 \<le> i \<and> i < int (length parts) then Inr (parts ! nat i)
      else if i < 0 \<and> - i \<le> int (length parts) then Inr (parts ! nat (int (length parts) + i))
      else Inl (Exc IndexError))"

fun part_at :: "part list \<Rightarrow> pyval \<Rightarrow> exc + part" where
  "part_at parts (PInt i) = int_index parts i"
| "part_at parts (PBool b) = int_index parts (if b then 1 else 0)"
| "part_at parts (PIndex t i) = int_index parts i"
| "part_at parts v = Inl (Exc TypeError)"

text \<open>\<open>[parts[i]['contents'] for i in indices]\<close>.\<close>

fun contents_at :: "part list \<Rightarrow> pyval list \<Rightarrow> exc + string list list" where
  "contents_at parts [] = Inr []"
| "contents_at parts (i # rest) =
     (case part_at parts i of
        Inl x \<Rightarrow> Inl x
      | Inr p \<Rightarrow>
          (case contents_at parts rest of
             Inl x \<Rightarrow> Inl x
           | Inr cs \<Rightarrow> Inr (contents p # cs)))"

text \<open>
  \<open>_select_parts\<close>, with the two options that it reads; \<open>sum(to_render, [])\<close> is the
  concatenation.
\<close>

record part_options =
  render_parts :: "string option"
  run_parts :: "string option"

definition select_parts ::
  "(string \<Rightarrow> ns \<times> store \<Rightarrow> (exc + pyval) \<times> ns \<times> store) \<Rightarrow> string list \<Rightarrow> part_options
     \<Rightarrow> env \<Rightarrow> (exc + string \<times> string) \<times> env" where
  "select_parts ev content options e =
     (case parse_parts content of
        Inl x \<Rightarrow> (Inl x, e)
      | Inr parts \<Rightarrow>
          (case get_parts ev (render_parts options) e of
             (Inl x, e1) \<Rightarrow> (Inl x, e1)
           | (Inr render_indices, e1) \<Rightarrow>
               (case contents_at parts render_indices of
                  Inl x \<Rightarrow> (Inl x, e1)
                | Inr to_render \<Rightarrow>
                    (case get_parts ev (run_parts options) e1 of
                       (Inl x, e2) \<Rightarrow> (Inl x, e2)
                     | (Inr run_indices, e2) \<Rightarrow>
                         (case contents_at parts run_indices of
                            Inl x \<Rightarrow> (Inl x, e2)
                          | Inr to_run \<Rightarrow>
                              (Inr (join [NL] (concat to_render), join [NL] (concat to_run)),
                               e2))))))"

text \<open>
  The result types in the words of the specification. A single integer is an \<open>int\<close> (a
  \<open>bool\<close> is one). An ordered sequence of integers is a tuple or a list whose items are
  integers, a \<open>range\<close> or a \<open>bytes\<close>; a \<open>str\<close> is a sequence of characters, never one
  of integers, also when it is empty, and every other type is none. The predicates are on
  the object itself: for a mutable object, on the content that the store holds.
\<close>

fun is_integer :: "pyval \<Rightarrow> bool" where
  "is_integer (PInt i) = True"
| "is_integer (PBool b) = True"
| "is_integer v = False"

fun is_integer_sequence :: "pyval \<Rightarrow> bool" where
  "is_integer_sequence (PTuple xs) = list_all is_integer xs"
| "is_integer_sequence (PList xs) = list_all is_integer xs"
| "is_integer_sequence (PRange start stop step) = True"
| "is_integer_sequence (PBytes bs) = True"
| "is_integer_sequence v = False"

text \<open>
  The values that index a list: an \<open>int\<close> and an object with \<open>__index__\<close>.
\<close>

fun is_index :: "pyval \<Rightarrow> bool" where
  "is_index (PInt i) = True"
| "is_index (PBool b) = True"
| "is_index (PIndex t i) = True"
| "is_index v = False"

text \<open>The bindings of the namespace of flags of a document; none before its first access.\<close>

definition flags_of :: "env \<Rightarrow> string \<Rightarrow> ns" where
  "flags_of e dn = (case nbplot_flag_namespaces e dn of None \<Rightarrow> [] | Some a \<Rightarrow> heap e a)"

text \<open>
  What the names of a dict stand for: each value with the content that the store holds for
  it. This is what code that reads the names sees.
\<close>

definition seen_in :: "store \<Rightarrow> ns \<Rightarrow> ns" where
  "seen_in st bindings = map (\<lambda>(k, v). (k, deref st v)) bindings"

text \<open>
  The environments that the hooks and directives keep: every dict referred to has been
  given out, the namespaces of two documents are two dicts, and none of them is the dict
  \<open>config.nbplot_flags\<close>.
\<close>

definition wf_env :: "env \<Rightarrow> bool" where
  "wf_env e =
     (nbplot_flags e < next_addr e
      \<and> (\<forall>dn a. nbplot_flag_namespaces e dn = Some a \<longrightarrow> a < next_addr e \<and> a \<noteq> nbplot_flags e)
      \<and> (\<forall>dn dn' a. nbplot_flag_namespaces e dn = Some a \<and> nbplot_flag_namespaces e dn' = Some a
            \<longrightarrow> dn = dn'))"

section \<open>Inputs for the examples\<close>

text \<open>
  A host for examples: every text compiles, no save fails, and the interpreter is the given
  function. The process state is that of a documentation build, with the directories
  \<open>/doc\<close>, \<open>/tmp\<close> and \<open>/build\<close>.
\<close>

definition quiet_host :: "(string \<Rightarrow> ns \<times> world \<Rightarrow> exc option \<times> ns \<times> world) \<Rightarrow> host" where
  "quiet_host ex =
     \<lparr>py_compile = (\<lambda>t. None), py_exec = ex, py_int = (\<lambda>t. None),
      abspath = (\<lambda>c p. p), savefig = (\<lambda>f p d. None), rc_file_defaults = []\<rparr>"

definition sphinx_world :: world where
  "sphinx_world =
     \<lparr>cwd = ''/doc'', dirs = [''/doc'', ''/tmp'', ''/build''], sys_path = PathList [''/lib''],
      sys_argv = [Some ''sphinx-build''], sys_stdout = Stream ''stdout'', figs = [],
      rcparams = []\<rparr>"




text \<open>A configuration for examples.\<close>

definition docs_config :: config where
  "docs_config =
     \<lparr>nbplot_formats = FormatsList [FmtStr ''png'', FmtStr ''pdf''], nbplot_rcparams = [],
      nbplot_working_directory = None, nbplot_pre_code = None\<rparr>"

text \<open>
  An environment for examples: the configuration's flags are \<open>{'slow': True}\<close>, the dict
  at address 0; and an interpreter for the code \<open>slow = False\<close>.
\<close>

definition build_env :: env where
  "build_env =
     \<lparr>docname = ''index'', nbplot_reset_markers = Map.empty,
      nbplot_flag_namespaces = Map.empty, nbplot_flags = 0,
      heap = (\<lambda>a. [])(0 := [(''slow'', PBool True)]), next_addr = 1,
      objects = (\<lambda>a. PNone)\<rparr>"

definition set_slow_false :: "string \<Rightarrow> ns \<times> store \<Rightarrow> exc option \<times> ns \<times> store" where
  "set_slow_false source s =
     (case s of (bindings, st) \<Rightarrow> (None, AList.update ''slow'' (PBool False) bindings, st))"

text \<open>
  An environment whose configuration's flags are \<open>{'seen': []}\<close>: the list is the object
  at address 0 of the store. And an interpreter for the code \<open>seen.append(1)\<close>: it leaves
  the bindings as they are and changes the list that \<open>seen\<close> refers to.
\<close>

definition list_env :: env where
  "list_env =
     \<lparr>docname = ''index'', nbplot_reset_markers = Map.empty,
      nbplot_flag_namespaces = Map.empty, nbplot_flags = 0,
      heap = (\<lambda>a. [])(0 := [(''seen'', PRef 0)]), next_addr = 1,
      objects = (\<lambda>a. PNone)(0 := PList [])\<rparr>"

definition append_seen :: "string \<Rightarrow> ns \<times> store \<Rightarrow> exc option \<times> ns \<times> store" where
  "append_seen source s =
     (case s of (bindings, st) \<Rightarrow>
        (case map_of bindings ''seen'' of
           Some (PRef a) \<Rightarrow>
             (case st a of
                PList xs \<Rightarrow> (None, bindings, st(a := PList (xs @ [PInt 1])))
              | _ \<Rightarrow> (Some (Exc AttributeError), bindings, st))
         | _ \<Rightarrow> (Some (Exc AttributeError), bindings, st)))"

text \<open>
  An \<open>eval\<close> for examples: the value is what the name \<open>parts\<close> is bound to, a float
  when the name is not bound.
\<close>

definition name_eval :: "string \<Rightarrow> ns \<times> store \<Rightarrow> (exc + pyval) \<times> ns \<times> store" where
  "name_eval source s =
     (case s of (bindings, st) \<Rightarrow>
        (Inr (case map_of bindings ''parts'' of Some v \<Rightarrow> v | None \<Rightarrow> PObj ''float''),
         AList.update ''__builtins__'' (PObj ''dict'') bindings, st))"

text \<open>
  An environment for the selection of parts: the configuration's flags bind \<open>parts\<close> to
  the given value.
\<close>

definition parts_env :: "pyval \<Rightarrow> env" where
  "parts_env v =
     \<lparr>docname = ''index'', nbplot_reset_markers = Map.empty,
      nbplot_flag_namespaces = Map.empty, nbplot_flags = 0,
      heap = (\<lambda>a. [])(0 := [(''parts'', v)]), next_addr = 1,
      objects = (\<lambda>a. PNone)\<rparr>"

section \<open>Properties of the builder-visibility policy\<close>

text \<open>
  C2. The query \<open>likes_builder\<close> answers true when the builder name is in \<open>show-to\<close>;
  otherwise false when \<open>all\<close> is in \<open>hide-from\<close>; otherwise false when the name is in
  \<open>hide-from\<close>; otherwise true. In particular a name in \<open>show-to\<close> is accepted whatever
  \<open>hide-from\<close> holds, the entry \<open>all\<close> included.
\<close>

theorem likes_builder_contract:
  "likes_builder node b =
     (if b \<in> set (get_default node ''show-to'') then True
      else if ''all'' \<in> set (get_default node ''hide-from'') then False
      else if b \<in> set (get_default node ''hide-from'') then False
      else True)
   \<and> (b \<in> set (get_default node ''show-to'') \<longrightarrow> likes_builder node b)"
  by (simp add: likes_builder_def Let_def)

theorem likes_builder_contract_witness:
  "likes_builder [''hide-from'' \<mapsto> [''all''], ''show-to'' \<mapsto> [''doctest'']] ''doctest''
   \<and> \<not> likes_builder [''hide-from'' \<mapsto> [''all''], ''show-to'' \<mapsto> [''doctest'']] ''html''"
  using likes_builder_contract
      [of "[''hide-from'' \<mapsto> [''all''], ''show-to'' \<mapsto> [''doctest'']]" "''doctest''"]
    likes_builder_contract
      [of "[''hide-from'' \<mapsto> [''all''], ''show-to'' \<mapsto> [''doctest'']]" "''html''"]
  by (simp add: get_default_def)

subsection \<open>Space-separated builder names\<close>

lemma split_ws_from_word:
  "list_all (\<lambda>c. \<not> isspace c) n \<Longrightarrow> split_ws_from cur (n @ s) = split_ws_from (rev n @ cur) s"
  by (induction n arbitrary: cur) auto

lemma isspace_SP: "isspace SP"
  by (simp add: isspace_def)

lemma split_ws_join:
  "list_all builder_name names \<Longrightarrow> split_ws (join '' '' names) = names"
proof (induction "'' ''" names rule: join.induct)
  case 1
  then show ?case by (simp add: split_ws_def)
next
  case (2 x)
  then show ?case
    using split_ws_from_word [of x "[]" "[]"] by (simp add: split_ws_def builder_name_def)
next
  case (3 x y ys)
  then show ?case
    using split_ws_from_word [of x "[]" "'' '' @ join '' '' (y # ys)"]
    by (simp add: split_ws_def builder_name_def isspace_SP)
qed

lemma dropWhile_none: "list_all (\<lambda>c. \<not> P c) n \<Longrightarrow> dropWhile P n = n"
  by (cases n) auto

lemma strip_name: "builder_name n \<Longrightarrow> strip n = n"
  by (simp add: strip_def builder_name_def dropWhile_none)

lemma option_names_join:
  "list_all builder_name names \<Longrightarrow> option_names (Some (join '' '' names)) = names"
  by (simp add: option_names_def split_ws_join map_idI strip_name list_all_iff)

lemma proc_builder_opts_attrs:
  "snd (proc_builder_opts options cfg) =
     [''hide-from'' \<mapsto>
        (if (case include_source options of None \<Rightarrow> cfg | Some b \<Rightarrow> b) then [] else [''all''])
        @ option_names (hide_from_opt options),
      ''show-to'' \<mapsto>
        (if (case include_source options of None \<Rightarrow> cfg | Some b \<Rightarrow> b) then [] else [''doctest''])
        @ option_names (show_to_opt options)]"
  by (simp add: proc_builder_opts_def Let_def)

text \<open>
  C4. With \<open>inc\<close> the effective \<open>include-source\<close> option (the directive's, else the
  configuration's), the base attributes are \<open>hide-from = [all]\<close>, \<open>show-to = [doctest]\<close>
  when \<open>inc\<close> is false, and both empty when it is true. The names of an explicit
  \<open>hide-from\<close> or \<open>show-to\<close> option, written separated by spaces, come after the base
  list, which stays; an absent option adds nothing.
\<close>

theorem proc_builder_opts_base_then_appended:
  assumes "hide_from_opt options = map_option (join '' '') hide_names"
    and "show_to_opt options = map_option (join '' '') show_names"
    and "list_all builder_name (case hide_names of None \<Rightarrow> [] | Some ns \<Rightarrow> ns)"
    and "list_all builder_name (case show_names of None \<Rightarrow> [] | Some ns \<Rightarrow> ns)"
    and "inc = (case include_source options of None \<Rightarrow> nbplot_include_source | Some b \<Rightarrow> b)"
  shows "snd (proc_builder_opts options nbplot_include_source) ''hide-from'' =
           Some ((if inc then [] else [''all''])
                 @ (case hide_names of None \<Rightarrow> [] | Some ns \<Rightarrow> ns))
       \<and> snd (proc_builder_opts options nbplot_include_source) ''show-to'' =
           Some ((if inc then [] else [''doctest''])
                 @ (case show_names of None \<Rightarrow> [] | Some ns \<Rightarrow> ns))"
proof -
  have h: "option_names (hide_from_opt options) = (case hide_names of None \<Rightarrow> [] | Some ns \<Rightarrow> ns)"
    using assms(1,3) by (cases hide_names) (simp_all add: option_names_join, simp add: option_names_def)
  have s: "option_names (show_to_opt options) = (case show_names of None \<Rightarrow> [] | Some ns \<Rightarrow> ns)"
    using assms(2,4) by (cases show_names) (simp_all add: option_names_join, simp add: option_names_def)
  show ?thesis
    unfolding proc_builder_opts_attrs h s assms(5) by simp
qed

theorem proc_builder_opts_witness:
  "snd (proc_builder_opts
          \<lparr>include_source = None, hide_from_opt = Some ''html latex'', show_to_opt = None\<rparr> False)
     ''hide-from'' = Some [''all'', ''html'', ''latex'']
   \<and> snd (proc_builder_opts
          \<lparr>include_source = None, hide_from_opt = Some ''html latex'', show_to_opt = None\<rparr> False)
     ''show-to'' = Some [''doctest'']"
  using proc_builder_opts_base_then_appended
    [of "\<lparr>include_source = None, hide_from_opt = Some ''html latex'', show_to_opt = None\<rparr>"
        "Some [''html'', ''latex'']" None False False]
  by (simp add: builder_name_def isspace_def)

text \<open>
  C10. \<open>_hide_from_builder\<close> is meant to leave the name out of \<open>show-to\<close> and in
  \<open>hide-from\<close>, so that the node rejects the builder. \<open>list.remove\<close> deletes one occurrence:
  on a \<open>show-to\<close> list that holds \<open>doctest\<close> twice (as \<open>:include-source: false\<close> with
  \<open>:show-to: doctest\<close> produces it) the name stays in \<open>show-to\<close>, the node still accepts
  the \<open>doctest\<close> builder, and a second call changes the dict again.
\<close>

theorem hide_from_builder_duplicate_show_to:
  "(case hide_from_builder
           [''hide-from'' \<mapsto> [''all''], ''show-to'' \<mapsto> [''doctest'', ''doctest'']] ''doctest'' of
      Inl e \<Rightarrow> False
    | Inr a \<Rightarrow>
        a ''show-to'' = Some [''doctest''] \<and> a ''hide-from'' = Some [''all'', ''doctest'']
        \<and> likes_builder (node_with_attrs a) ''doctest''
        \<and> (case hide_from_builder a ''doctest'' of
              Inl e \<Rightarrow> False
            | Inr a2 \<Rightarrow> a2 ''show-to'' = Some [] \<and> a2 ''show-to'' \<noteq> a ''show-to''))"
  by (simp add: hide_from_builder_def likes_builder_def node_with_attrs_def get_default_def
        Let_def)

lemma remove1_single: "count_list st b \<le> 1 \<Longrightarrow> b \<notin> set (remove1 b st)"
  by (induction st) (auto split: if_splits simp: count_list_0_iff)

text \<open>
  Where the name occurs at most once in \<open>show-to\<close> the function does what it is meant to:
  the name is then absent from \<open>show-to\<close> and present in \<open>hide-from\<close>, the node rejects
  the builder, and a second call returns the same dict.
\<close>

lemma hide_from_builder_single_occurrence:
  assumes "a ''show-to'' = Some st" and "a ''hide-from'' = Some hf"
    and "count_list st b \<le> 1"
  shows "\<exists>a'. hide_from_builder a b = Inr a'
           \<and> b \<notin> set (get_default a' ''show-to'') \<and> b \<in> set (get_default a' ''hide-from'')
           \<and> \<not> likes_builder (node_with_attrs a') b
           \<and> hide_from_builder a' b = Inr a'"
proof -
  define st' where "st' = (if b \<in> set st then remove1 b st else st)"
  define hf' where "hf' = (if b \<notin> set hf then hf @ [b] else hf)"
  have st': "b \<notin> set st'"
    using remove1_single [OF assms(3)] by (simp add: st'_def)
  have hf': "b \<in> set hf'"
    by (simp add: hf'_def)
  obtain a' where r: "hide_from_builder a b = Inr a'"
    and s: "a' ''show-to'' = Some st'" and h: "a' ''hide-from'' = Some hf'"
    using assms(1,2)
    by (cases "b \<in> set st"; cases "b \<in> set hf")
      (simp_all add: hide_from_builder_def Let_def st'_def hf'_def)
  have again: "hide_from_builder a' b = Inr a'"
    using s h st' hf' by (simp add: hide_from_builder_def Let_def)
  have likes: "\<not> likes_builder (node_with_attrs a') b"
    using s h st' hf'
    by (cases "st' = []"; cases "hf' = []")
      (simp_all add: likes_builder_def node_with_attrs_def get_default_def Let_def)
  show ?thesis
    using r s h st' hf' again likes by (simp add: get_default_def)
qed

section \<open>Properties of the part parser\<close>

lemma split_on_not_Nil [simp]: "split_on sep s \<noteq> []"
  by (induction s) (auto split: list.splits)

lemma split_on_append_sep: "split_on sep (a @ sep # b) = split_on sep a @ split_on sep b"
proof (induction a)
  case Nil
  then show ?case by simp
next
  case (Cons c a)
  then show ?case
    by (cases "split_on sep a") (auto split: list.splits)
qed

lemma split_on_no_sep: "sep \<notin> set m \<Longrightarrow> split_on sep m = [m]"
  by (induction m) auto

lemma split_on_join:
  "lines \<noteq> [] \<Longrightarrow> \<forall>l\<in>set lines. sep \<notin> set l \<Longrightarrow> split_on sep (join [sep] lines) = lines"
proof (induction "[sep]" lines rule: join.induct)
  case 1
  then show ?case by simp
next
  case (2 x)
  then show ?case by (simp add: split_on_no_sep)
next
  case (3 x y ys)
  then show ?case
    using split_on_append_sep [of sep x "join [sep] (y # ys)"] by (simp add: split_on_no_sep)
qed

lemma line_of_join:
  assumes "\<forall>l\<in>set lines. NL \<notin> set l"
    and "join [NL] lines = pre @ m @ NL # post"
    and "pre = [] \<or> last pre = NL"
    and "NL \<notin> set m"
  shows "m \<in> set lines"
proof -
  have ne: "lines \<noteq> []" using assms(2) by auto
  have sp: "split_on NL (join [NL] lines) = lines"
    using split_on_join [OF ne assms(1)] .
  have "m \<in> set (split_on NL (pre @ m @ NL # post))"
  proof (cases "pre = []")
    case True
    then show ?thesis
      using split_on_append_sep [of NL m post] assms(4) by (simp add: split_on_no_sep)
  next
    case False
    then obtain p where p: "pre = p @ [NL]"
      using assms(3) by (metis append_butlast_last_id)
    have "split_on NL (pre @ m @ NL # post) = split_on NL p @ split_on NL (m @ NL # post)"
      using split_on_append_sep [of NL p "m @ NL # post"] p by simp
    also have "\<dots> = split_on NL p @ [m] @ split_on NL post"
      using split_on_append_sep [of NL m post] assms(4) by (simp add: split_on_no_sep)
    finally show ?thesis by simp
  qed
  then show ?thesis using sp assms(2) by simp
qed


lemma startswithD: "startswith s p \<Longrightarrow> s = p @ drop (length p) s"
  by (metis append_take_drop_id startswith_def)

lemma sep_tail_marker: "sep_tail t = Some m \<Longrightarrow> startswith t (''.. part'' @ [NL])"
  by (simp add: sep_tail_def split: if_splits)

lemma match_parter_marker:
  assumes "match_parter b s = Some m"
  shows "(b \<and> startswith s (''.. part'' @ [NL]))
       \<or> (\<exists>post. s = [NL] @ NL # ''.. part'' @ NL # post)"
proof (cases "startswith s [NL, NL] \<and> sep_tail (drop 2 s) \<noteq> None")
  case True
  then obtain m' where "sep_tail (drop 2 s) = Some m'" by auto
  then have "startswith (drop 2 s) (''.. part'' @ [NL])"
    by (rule sep_tail_marker)
  then obtain post where post: "drop 2 s = (''.. part'' @ [NL]) @ post"
    using startswithD by blast
  have "startswith s [NL, NL]" using True by simp
  then obtain r where r: "s = [NL, NL] @ r"
    using startswithD by blast
  then have "drop 2 s = r"
    by (metis append_eq_conv_conj length_Cons list.size(3) numeral_2_eq_2)
  then have "s = [NL] @ NL # ''.. part'' @ NL # post"
    using r post by simp
  then show ?thesis by blast
next
  case False
  then have "b \<and> sep_tail s = Some m"
    using assms
    by (cases "sep_tail (drop 2 s)"; cases "startswith s [NL, NL]"; cases b)
      (simp_all add: match_parter_def)
  then show ?thesis using sep_tail_marker by blast
qed

lemma parter_split_no_marker:
  assumes "\<forall>pre post. s \<noteq> pre @ NL # ''.. part'' @ NL # post"
    and "b \<longrightarrow> \<not> startswith s (''.. part'' @ [NL])"
  shows "parter_split_from b acc s = [rev acc @ s]"
  using assms
proof (induction s arbitrary: b acc)
  case Nil
  have "match_parter b [] = None"
    using match_parter_marker [of b "[]"] Nil by (cases "match_parter b []") auto
  then show ?case by (simp add: parter_split_from.simps [of b acc "[]"])
next
  case (Cons c cs)
  have none: "match_parter b (c # cs) = None"
  proof (cases "match_parter b (c # cs)")
    case None
    then show ?thesis .
  next
    case (Some m)
    then show ?thesis
      using match_parter_marker [OF Some] Cons.prems by blast
  qed
  have "\<forall>pre post. cs \<noteq> pre @ NL # ''.. part'' @ NL # post"
  proof (intro allI notI)
    fix pre post
    assume "cs = pre @ NL # ''.. part'' @ NL # post"
    then have "c # cs = (c # pre) @ NL # ''.. part'' @ NL # post" by simp
    then show False using Cons.prems(1) by blast
  qed
  then have "parter_split_from False (c # acc) cs = [rev (c # acc) @ cs]"
    using Cons.IH [of False "c # acc"] by simp
  then show ?case
    using none by (simp add: parter_split_from.simps [of b acc "c # cs"])
qed

lemma strip_decomp:
  "\<exists>w1 w2. s = w1 @ strip s @ w2 \<and> list_all isspace w1 \<and> list_all isspace w2"
proof -
  let ?d = "dropWhile isspace s"
  have "s = takeWhile isspace s @ ?d" by simp
  moreover have "rev ?d = takeWhile isspace (rev ?d) @ dropWhile isspace (rev ?d)" by simp
  then have "?d = strip s @ rev (takeWhile isspace (rev ?d))"
    unfolding strip_def by (metis rev_append rev_rev_ident)
  moreover have "list_all isspace (takeWhile isspace s)"
    by (simp add: list_all_iff) (meson set_takeWhileD)
  moreover have "list_all isspace (rev (takeWhile isspace (rev ?d)))"
    by (simp add: list_all_iff) (meson set_takeWhileD)
  ultimately show ?thesis by metis
qed

lemma strip_marker: "list_all isspace t \<Longrightarrow> strip (t @ ''.. part'') = ''.. part''"
proof -
  assume "list_all isspace t"
  then have "dropWhile isspace (t @ ''.. part'') = ''.. part''"
    by (simp add: dropWhile_append2 list_all_iff isspace_def)
  then show ?thesis
    by (simp add: strip_def isspace_def)
qed

lemma split_last_newline:
  "\<exists>pre tail. w = pre @ tail \<and> (pre = [] \<or> last pre = NL) \<and> NL \<notin> set tail
     \<and> (list_all P w \<longrightarrow> list_all P tail)"
proof -
  let ?pre = "rev (dropWhile not_NL (rev w))" and ?tail = "rev (takeWhile not_NL (rev w))"
  have "rev w = takeWhile not_NL (rev w) @ dropWhile not_NL (rev w)" by simp
  then have 1: "w = ?pre @ ?tail" by (metis rev_append rev_rev_ident)
  have 2: "?pre = [] \<or> last ?pre = NL"
  proof (cases "dropWhile not_NL (rev w)")
    case Nil
    then show ?thesis by simp
  next
    case (Cons a as)
    then have "\<not> not_NL a" using dropWhile_eq_Cons_conv by metis
    then show ?thesis using Cons by (simp add: not_NL_def)
  qed
  have 3: "NL \<notin> set ?tail"
    using set_takeWhileD [of NL not_NL "rev w"] by (auto simp: not_NL_def)
  have 4: "list_all P w \<longrightarrow> list_all P ?tail"
    by (auto simp: list_all_iff dest: set_takeWhileD)
  show ?thesis using 1 2 3 4 by blast
qed

lemma no_marker_in_text:
  assumes "\<forall>l\<in>set lines. NL \<notin> set l \<and> strip l \<noteq> ''.. part''"
  shows "(\<forall>pre post. strip (join [NL] lines) \<noteq> pre @ NL # ''.. part'' @ NL # post)
       \<and> \<not> startswith (strip (join [NL] lines)) (''.. part'' @ [NL])"
proof -
  obtain w1 w2 where J: "join [NL] lines = w1 @ strip (join [NL] lines) @ w2"
    and w1: "list_all isspace w1"
    using strip_decomp by blast
  have nl: "\<forall>l\<in>set lines. NL \<notin> set l" using assms by simp
  have a: "\<forall>pre post. strip (join [NL] lines) \<noteq> pre @ NL # ''.. part'' @ NL # post"
  proof (intro allI notI)
    fix pre post
    assume "strip (join [NL] lines) = pre @ NL # ''.. part'' @ NL # post"
    then have "join [NL] lines = (w1 @ pre @ [NL]) @ ''.. part'' @ NL # (post @ w2)"
      using J by simp
    then have "''.. part'' \<in> set lines"
      using line_of_join [OF nl, of "w1 @ pre @ [NL]" "''.. part''" "post @ w2"] by simp
    moreover have "strip ''.. part'' = ''.. part''"
      using strip_marker [of "[]"] by simp
    ultimately show False using assms by blast
  qed
  have b: "\<not> startswith (strip (join [NL] lines)) (''.. part'' @ [NL])"
  proof
    assume "startswith (strip (join [NL] lines)) (''.. part'' @ [NL])"
    then obtain post where "strip (join [NL] lines) = (''.. part'' @ [NL]) @ post"
      using startswithD by blast
    then have J2: "join [NL] lines = w1 @ ''.. part'' @ NL # (post @ w2)"
      using J by simp
    obtain pre tail where w: "w1 = pre @ tail" and pre: "pre = [] \<or> last pre = NL"
      and tail: "NL \<notin> set tail" and sp: "list_all isspace tail"
      using split_last_newline [of w1 isspace] w1 by blast
    have "join [NL] lines = pre @ (tail @ ''.. part'') @ NL # (post @ w2)"
      using J2 w by simp
    moreover have "NL \<notin> set (tail @ ''.. part'')" using tail by simp
    ultimately have "tail @ ''.. part'' \<in> set lines"
      using line_of_join [OF nl _ pre] by blast
    then show False using assms strip_marker [OF sp] by blast
  qed
  show ?thesis using a b by blast
qed

lemma parse_parts_single:
  assumes "\<forall>l\<in>set lines. NL \<notin> set l \<and> strip l \<noteq> ''.. part''"
  shows "parse_parts lines =
           Inr [\<lparr>attributes = [], contents = splitlines (strip (join [NL] lines))\<rparr>]"
proof -
  have "parter_split (strip (join [NL] lines)) = [strip (join [NL] lines)]"
    unfolding parter_split_def
    using parter_split_no_marker [of "strip (join [NL] lines)" True "[]"]
      no_marker_in_text [OF assms] by simp
  then show ?thesis by (simp add: parse_parts_def)
qed

lemma splitlines_line:
  "list_all (\<lambda>c. \<not> is_linebreak c) l \<Longrightarrow> splitlines (l @ NL # rest) = l # splitlines rest"
proof (induction l)
  case Nil
  then show ?case by (cases rest) (simp_all add: is_linebreak_def)
next
  case (Cons c l)
  then have c: "\<not> is_linebreak c" and "c \<noteq> CR"
    by (auto simp: is_linebreak_def)
  obtain d ds where "l @ NL # rest = d # ds" by (cases "l @ NL # rest") auto
  then show ?case using Cons c \<open>c \<noteq> CR\<close> by simp
qed

lemma splitlines_last:
  "l \<noteq> [] \<Longrightarrow> list_all (\<lambda>c. \<not> is_linebreak c) l \<Longrightarrow> splitlines l = [l]"
proof (induction l rule: splitlines.induct)
  case 1
  then show ?case by simp
next
  case (2 c)
  then show ?case by simp
next
  case (3 c d cs)
  then have "c \<noteq> CR" by (auto simp: is_linebreak_def)
  then show ?case using 3 by simp
qed

lemma splitlines_join:
  assumes "lines \<noteq> []" and "\<forall>l\<in>set lines. list_all (\<lambda>c. \<not> is_linebreak c) l"
    and "last lines \<noteq> []"
  shows "splitlines (join [NL] lines) = lines"
  using assms
proof (induction "[NL]" lines rule: join.induct)
  case 1
  then show ?case by simp
next
  case (2 x)
  then show ?case by (simp add: splitlines_last)
next
  case (3 x y ys)
  then show ?case
    using splitlines_line [of x "join [NL] (y # ys)"] by simp
qed

lemma hd_join: "lines \<noteq> [] \<Longrightarrow> hd lines \<noteq> [] \<Longrightarrow> hd (join sep lines) = hd (hd lines)"
  by (induction sep lines rule: join.induct) auto

lemma join_not_Nil: "lines \<noteq> [] \<Longrightarrow> last lines \<noteq> [] \<Longrightarrow> join sep lines \<noteq> []"
  by (induction sep lines rule: join.induct) auto

lemma last_join:
  "lines \<noteq> [] \<Longrightarrow> last lines \<noteq> [] \<Longrightarrow> last (join sep lines) = last (last lines)"
proof (induction sep lines rule: join.induct)
  case (1 sep)
  then show ?case by simp
next
  case (2 sep x)
  then show ?case by simp
next
  case (3 sep x y ys)
  then have "join sep (y # ys) \<noteq> []"
    using join_not_Nil [of "y # ys" sep] by simp
  then show ?case using 3 by simp
qed

lemma strip_id: "s \<noteq> [] \<Longrightarrow> \<not> isspace (hd s) \<Longrightarrow> \<not> isspace (last s) \<Longrightarrow> strip s = s"
proof -
  assume s: "s \<noteq> []" and h: "\<not> isspace (hd s)" and l: "\<not> isspace (last s)"
  have "dropWhile isspace s = s" using s h by (cases s) auto
  moreover have "dropWhile isspace (rev s) = rev s"
    using s l by (cases "rev s") (auto simp: last_rev [symmetric] hd_rev)
  ultimately show ?thesis by (simp add: strip_def)
qed

text \<open>
  C3 (as amended). When no input line contains a newline or is the marker \<open>.. part\<close> up to
  surrounding whitespace, \<open>parse_parts\<close> returns exactly one part, with no attributes,
  whose contents are the lines (\<open>str.splitlines\<close>) of the newline-joined input after
  \<open>str.strip()\<close>. The contents are the input lines themselves when the input is empty,
  or when no line holds a line-boundary character, the first line is not empty and does not
  start with whitespace, and the last line is not empty and does not end with whitespace.
\<close>

theorem parse_parts_no_separator:
  assumes "\<forall>l\<in>set lines. NL \<notin> set l \<and> strip l \<noteq> ''.. part''"
  shows "parse_parts lines =
           Inr [\<lparr>attributes = [], contents = splitlines (strip (join [NL] lines))\<rparr>]
       \<and> (lines = [] \<or>
            (\<forall>l\<in>set lines. list_all (\<lambda>c. \<not> is_linebreak c) l)
            \<and> hd lines \<noteq> [] \<and> \<not> isspace (hd (hd lines))
            \<and> last lines \<noteq> [] \<and> \<not> isspace (last (last lines))
          \<longrightarrow> parse_parts lines = Inr [\<lparr>attributes = [], contents = lines\<rparr>])"
proof (intro conjI impI)
  show single: "parse_parts lines =
      Inr [\<lparr>attributes = [], contents = splitlines (strip (join [NL] lines))\<rparr>]"
    using assms by (rule parse_parts_single)
  assume h: "lines = [] \<or>
            (\<forall>l\<in>set lines. list_all (\<lambda>c. \<not> is_linebreak c) l)
            \<and> hd lines \<noteq> [] \<and> \<not> isspace (hd (hd lines))
            \<and> last lines \<noteq> [] \<and> \<not> isspace (last (last lines))"
  have "splitlines (strip (join [NL] lines)) = lines"
  proof (cases "lines = []")
    case True
    then show ?thesis by (simp add: strip_def)
  next
    case False
    then have lb: "\<forall>l\<in>set lines. list_all (\<lambda>c. \<not> is_linebreak c) l"
      and hd: "hd lines \<noteq> []" "\<not> isspace (hd (hd lines))"
      and la: "last lines \<noteq> []" "\<not> isspace (last (last lines))"
      using h by auto
    have "strip (join [NL] lines) = join [NL] lines"
      using strip_id [of "join [NL] lines"] join_not_Nil [OF False la(1)]
        hd_join [OF False hd(1)] last_join [OF False la(1)] hd(2) la(2) by simp
    then show ?thesis
      using splitlines_join [OF False lb la(1)] by simp
  qed
  then show "parse_parts lines = Inr [\<lparr>attributes = [], contents = lines\<rparr>]"
    using single by simp
qed

theorem parse_parts_no_separator_witness:
  "parse_parts [''x = 1'', '''', ''y = 2''] =
     Inr [\<lparr>attributes = [], contents = [''x = 1'', '''', ''y = 2'']\<rparr>]"
  using parse_parts_no_separator [of "[''x = 1'', '''', ''y = 2'']"]
  by (simp add: strip_def isspace_def is_linebreak_def)

text \<open>
  The claim as first stated (the contents equal the original lines) fails where the first
  line is indented: \<open>strip\<close> on the joined text removes the indentation.
\<close>

theorem parse_parts_strips_counterexample:
  "strip ''  x = 1'' \<noteq> ''.. part'' \<and> strip ''y = 2'' \<noteq> ''.. part''
   \<and> parse_parts [''  x = 1'', ''y = 2''] =
       Inr [\<lparr>attributes = [], contents = [''x = 1'', ''y = 2'']\<rparr>]
   \<and> parse_parts [''  x = 1'', ''y = 2''] \<noteq>
       Inr [\<lparr>attributes = [], contents = [''  x = 1'', ''y = 2'']\<rparr>]"
  using parse_parts_single [of "[''  x = 1'', ''y = 2'']"]
  by (simp add: strip_def isspace_def is_linebreak_def)

section \<open>Properties of the doctest handling\<close>

lemma startswith_Cons:
  "startswith (c # s) (q # qs) = (c = q \<and> startswith s qs)"
  by (simp add: startswith_def)

lemma startswith_Nil [simp]: "startswith s [] = True"
  by (simp add: startswith_def)

lemma startswith_Nil_left [simp]: "startswith [] p = (p = [])"
  by (auto simp: startswith_def)

lemma startswith_first_line:
  "NL \<notin> set p \<Longrightarrow> startswith (hd (split_on NL s)) p = startswith s p"
proof (induction s arbitrary: p)
  case Nil
  then show ?case by simp
next
  case (Cons c cs)
  show ?case
  proof (cases p)
    case Nil
    then show ?thesis by simp
  next
    case (Cons q qs)
    then have q: "q \<noteq> NL" and qs: "NL \<notin> set qs" using Cons.prems by auto
    obtain l ls where sp: "split_on NL cs = l # ls"
      by (cases "split_on NL cs") (auto split: list.splits)
    show ?thesis
    proof (cases "c = NL")
      case True
      then show ?thesis using Cons q by (auto simp: startswith_Cons)
    next
      case False
      then show ?thesis
        using Cons sp Cons.IH [OF qs] by (simp add: startswith_Cons)
    qed
  qed
qed

lemma prompt_lines_head:
  "(prompt_first s \<or> list_ex prompt_first (tl (split_on NL s)))
     = list_ex prompt_first (split_on NL s)"
proof (induction s)
  case Nil
  then show ?case by (simp add: prompt_first_def)
next
  case (Cons c cs)
  obtain l ls where sp: "split_on NL cs = l # ls"
    by (cases "split_on NL cs") (auto split: list.splits)
  show ?case
  proof (cases "c = NL")
    case True
    then have "prompt_first (c # cs) = prompt_first cs"
      by (simp add: prompt_first_def isspace_def)
    then show ?thesis using True Cons.IH sp by (auto simp: prompt_first_def)
  next
    case False
    show ?thesis
    proof (cases "isspace c")
      case True
      then have "prompt_first (c # cs) = prompt_first cs"
        and "prompt_first (c # l) = prompt_first l"
        by (simp_all add: prompt_first_def)
      then show ?thesis using False Cons.IH sp by auto
    next
      case ns: False
      have "startswith (hd (split_on NL (c # cs))) ''>>>'' = startswith (c # cs) ''>>>''"
        by (rule startswith_first_line) simp
      then have "prompt_first (c # l) = prompt_first (c # cs)"
        using ns False sp by (simp add: prompt_first_def)
      then show ?thesis using False sp by auto
    qed
  qed
qed

lemma prompt_search_Cons:
  "prompt_search bol (c # cs) = ((bol \<and> prompt_first (c # cs)) \<or> prompt_search (c = NL) cs)"
  by (simp add: prompt_first_def)

lemma prompt_search_tail:
  "prompt_search bol s = ((bol \<and> prompt_first s) \<or> list_ex prompt_first (tl (split_on NL s)))"
proof (induction s arbitrary: bol)
  case Nil
  then show ?case by (simp add: prompt_first_def)
next
  case (Cons c cs)
  obtain l ls where sp: "split_on NL cs = l # ls"
    by (cases "split_on NL cs") (auto split: list.splits)
  show ?case
  proof (cases "c = NL")
    case True
    have "prompt_search True cs = list_ex prompt_first (split_on NL cs)"
      using Cons.IH [of True] prompt_lines_head [of cs] by simp
    then show ?thesis
      using True by (simp only: prompt_search_Cons) simp
  next
    case False
    have "prompt_search False cs = list_ex prompt_first ls"
      using Cons.IH [of False] sp by simp
    then show ?thesis
      using False sp by (simp only: prompt_search_Cons) simp
  qed
qed

lemma has_prompt_line_alt: "has_prompt_line text = list_ex prompt_first (split_on NL text)"
  unfolding has_prompt_line_def prompt_first_def ..

lemma prompt_search_lines: "prompt_search True text = has_prompt_line text"
  using prompt_search_tail [of True "text"] prompt_lines_head [of "text"]
  by (simp add: has_prompt_line_alt)

text \<open>
  C9. A text that compiles is returned unchanged by \<open>unescape_doctest\<close>, also when it has
  lines that begin with \<open>>>>\<close>. The translation of the transcript is applied exactly to the
  texts on which \<open>compile\<close> raises a \<open>SyntaxError\<close> and which have a line whose first
  non-whitespace characters are \<open>>>>\<close>; any other text comes back unchanged, or the
  exception of \<open>compile\<close> that is not a \<open>SyntaxError\<close> goes on to the caller.
\<close>

theorem unescape_doctest_translates_only:
  "(pycomp text = None \<longrightarrow> unescape_doctest pycomp text = Inr text)
   \<and> unescape_doctest pycomp text =
       (case pycomp text of
          None \<Rightarrow> Inr text
        | Some e \<Rightarrow>
            if \<not> catches SyntaxError e then Inl e
            else if has_prompt_line text then Inr (unescape_lines (split_on NL text))
            else Inr text)"
  by (simp add: unescape_doctest_def contains_doctest_def prompt_search_lines
      split: option.splits)

theorem unescape_doctest_witness:
  "unescape_doctest (\<lambda>t. None) (''s = \"\"\"'' @ [NL] @ ''>>> x'' @ [NL] @ ''\"\"\"'')
     = Inr (''s = \"\"\"'' @ [NL] @ ''>>> x'' @ [NL] @ ''\"\"\"'')
   \<and> has_prompt_line (''s = \"\"\"'' @ [NL] @ ''>>> x'' @ [NL] @ ''\"\"\"'')
   \<and> unescape_doctest (\<lambda>t. Some (Exc SyntaxError)) (''>>> x = 1'' @ [NL] @ ''[...]'')
     = Inr (''x = 1'' @ [NL] @ ''# [...]'' @ [NL])"
  using unescape_doctest_translates_only
      [of "\<lambda>t. None" "''s = \"\"\"'' @ [NL] @ ''>>> x'' @ [NL] @ ''\"\"\"''"]
    unescape_doctest_translates_only
      [of "\<lambda>t. Some (Exc SyntaxError)" "''>>> x = 1'' @ [NL] @ ''[...]''"]
  by (simp add: has_prompt_line_def startswith_def isspace_def catches_def issubclass_def
      SyntaxError_def doctest_line_def strip_def)

section \<open>Properties of the code runner\<close>

lemma run_code_leave_cases:
  "run_code_leave pwd old_argv old_path stdout (x, ns1, w1) =
     (if pwd \<notin> set (dirs w1) then (Some (Exc FileNotFoundError), ns1, w1)
      else if \<not> is_path_list (sys_path w1)
      then (Some (Exc TypeError), ns1, w1\<lparr>cwd := pwd, sys_argv := old_argv\<rparr>)
      else (x, ns1, w1\<lparr>cwd := pwd, sys_argv := old_argv, sys_path := PathList old_path,
                        sys_stdout := stdout\<rparr>))"
  by (cases "sys_path w1") (simp_all add: run_code_leave_def chdir_def Let_def)

lemma run_code_leave_restorable:
  assumes "restorable w (snd (snd (run_code_leave (cwd w) old_argv old_path stdout (x, ns1, w1))))"
  shows "run_code_leave (cwd w) old_argv old_path stdout (x, ns1, w1) =
           (x, ns1, w1\<lparr>cwd := cwd w, sys_argv := old_argv, sys_path := PathList old_path,
                         sys_stdout := stdout\<rparr>)"
  using assms unfolding run_code_leave_cases restorable_def
  by (simp split: if_splits)





lemmas run_code_eval =
  run_code_def run_code_enter_def getcwd_def chdir_def run_code_prepare_def unescape_doctest_def
  contains_doctest_def remove_coding_def remove_coding_from.simps coding_match_def
  run_code_main_def and_then_def run_code_function_def run_code_leave_def to_plot_error_def
  catches_def issubclass_def quiet_host_def sphinx_world_def startswith_def restorable_def



lemma run_code_after_prepare:
  assumes "run_code_enter code_path workdir w = Inr w1"
    and "run_code_prepare h code pre_code (case ns of None \<Rightarrow> [] | Some n \<Rightarrow> n, w1)
           = (None, code1, s)"
    and "restorable w
           (snd (snd (run_code h code code_path ns function_name workdir pre_code raises w)))"
  shows "fst (run_code h code code_path ns function_name workdir pre_code raises w)
           = map_option to_plot_error
               (fst (and_then (run_code_main h code1 raises s) (run_code_function h function_name)))"
proof -
  obtain x ns1 w2 where r:
    "and_then (run_code_main h code1 raises s) (run_code_function h function_name) = (x, ns1, w2)"
    using prod_cases3 by blast
  have eq: "run_code h code code_path ns function_name workdir pre_code raises w
              = run_code_leave (cwd w) (sys_argv w) (path_items (sys_path w)) (sys_stdout w)
                  (map_option to_plot_error x, ns1, w2)"
    using assms(1,2) r by (simp add: run_code_def)
  have "run_code_leave (cwd w) (sys_argv w) (path_items (sys_path w)) (sys_stdout w)
          (map_option to_plot_error x, ns1, w2)
        = (map_option to_plot_error x, ns1,
           w2\<lparr>cwd := cwd w, sys_argv := sys_argv w,
               sys_path := PathList (path_items (sys_path w)), sys_stdout := sys_stdout w\<rparr>)"
    using assms(3) unfolding eq by (rule run_code_leave_restorable)
  then show ?thesis
    using r unfolding eq by simp
qed

text \<open>
  C1 (as amended). In a call of \<open>run_code\<close> with a \<open>raises\<close> class, where the steps
  before the code succeed, the code raises \<open>e\<close>, and the \<open>finally\<close> block finds what it
  restores (at the end of the call the directory in which it started exists and
  \<open>sys.path\<close> is a list): if \<open>e\<close> is an instance of that class
  or of a subclass of it, \<open>e\<close> is dropped and the call goes on to the function named by
  \<open>function_name\<close>, so it returns when there is none; if \<open>e\<close> is any other instance
  of \<open>Exception\<close> or \<open>SystemExit\<close>, the call raises the \<open>PlotError\<close> that carries
  the trace of \<open>e\<close>; any other exception leaves the call as it is.
\<close>

theorem run_code_raises_contract:
  assumes "run_code_enter code_path workdir w = Inr w1"
    and "run_code_prepare h code pre_code (case ns of None \<Rightarrow> [] | Some n \<Rightarrow> n, w1)
           = (None, code1, s)"
    and "py_exec h code1 s = (Some e, s1)"
    and "restorable w
           (snd (snd (run_code h code code_path ns function_name workdir pre_code (Some cls) w)))"
  shows "(catches cls e \<longrightarrow>
            fst (run_code h code code_path ns function_name workdir pre_code (Some cls) w)
              = map_option to_plot_error (fst (run_code_function h function_name s1)))
       \<and> (catches cls e \<and> (function_name = None \<or> function_name = Some []) \<longrightarrow>
            fst (run_code h code code_path ns function_name workdir pre_code (Some cls) w) = None)
       \<and> (\<not> catches cls e \<and> (catches Exception e \<or> catches SystemExit e) \<longrightarrow>
            fst (run_code h code code_path ns function_name workdir pre_code (Some cls) w)
              = Some (PlotErrorOf e))
       \<and> (\<not> catches cls e \<and> \<not> catches Exception e \<and> \<not> catches SystemExit e \<longrightarrow>
            fst (run_code h code code_path ns function_name workdir pre_code (Some cls) w)
              = Some e)"
  using assms(3)
  unfolding run_code_after_prepare [OF assms(1,2,4)]
  by (auto simp: run_code_main_def and_then_def run_code_function_def to_plot_error_def)

theorem run_code_raises_contract_witness:
  "fst (run_code (quiet_host (\<lambda>c s. (Some (Exc UnicodeError), s)))
          ''boom()'' None None None None None (Some ValueError) sphinx_world) = None
   \<and> fst (run_code (quiet_host (\<lambda>c s. (Some (Exc TypeError), s)))
          ''boom()'' None None None None None (Some ValueError) sphinx_world)
       = Some (PlotErrorOf (Exc TypeError))"
  using run_code_raises_contract
      [of None None sphinx_world
          "sphinx_world\<lparr>sys_path := PathList [''/doc'', ''/lib''], sys_argv := [None],
             sys_stdout := StringIO []\<rparr>"
          "quiet_host (\<lambda>c s. (Some (Exc UnicodeError), s))"
          "''boom()''" None None "''boom()''"
          "([(''print'', PObj ''_dummy_print'')],
            sphinx_world\<lparr>sys_path := PathList [''/doc'', ''/lib''], sys_argv := [None],
             sys_stdout := StringIO []\<rparr>)"
          "Exc UnicodeError"
          "([(''print'', PObj ''_dummy_print'')],
            sphinx_world\<lparr>sys_path := PathList [''/doc'', ''/lib''], sys_argv := [None],
             sys_stdout := StringIO []\<rparr>)"
          None ValueError]
    run_code_raises_contract
      [of None None sphinx_world
          "sphinx_world\<lparr>sys_path := PathList [''/doc'', ''/lib''], sys_argv := [None],
             sys_stdout := StringIO []\<rparr>"
          "quiet_host (\<lambda>c s. (Some (Exc TypeError), s))"
          "''boom()''" None None "''boom()''"
          "([(''print'', PObj ''_dummy_print'')],
            sphinx_world\<lparr>sys_path := PathList [''/doc'', ''/lib''], sys_argv := [None],
             sys_stdout := StringIO []\<rparr>)"
          "Exc TypeError"
          "([(''print'', PObj ''_dummy_print'')],
            sphinx_world\<lparr>sys_path := PathList [''/doc'', ''/lib''], sys_argv := [None],
             sys_stdout := StringIO []\<rparr>)"
          None ValueError]
  by (simp add: run_code_eval Let_def
      ValueError_def UnicodeError_def TypeError_def Exception_def SystemExit_def)

text \<open>
  The claim as first stated fails twice. A \<open>KeyboardInterrupt\<close> of the code is no
  \<open>Exception\<close> and no \<open>SystemExit\<close>: it leaves \<open>run_code\<close> unwrapped. And when the code
  raises nothing, \<open>run_code\<close> returns: the \<open>try\<close> around the code has no \<open>else\<close>.
\<close>

theorem run_code_raises_counterexample:
  "fst (run_code (quiet_host (\<lambda>c s. (Some (Exc KeyboardInterrupt), s)))
          ''boom()'' None None None None None (Some ValueError) sphinx_world)
     = Some (Exc KeyboardInterrupt)
   \<and> fst (run_code (quiet_host (\<lambda>c s. (None, s)))
          ''x = 1'' None None None None None (Some ValueError) sphinx_world)
     = None"
  by (simp add: run_code_eval Let_def
      ValueError_def KeyboardInterrupt_def Exception_def SystemExit_def)

section \<open>Properties of the figure renderer\<close>

lemma save_formats_ok:
  assumes "\<forall>figman path dpi. savefig h figman path dpi = None"
  shows "save_formats h f img fmts = Inr (img\<lparr>formats := formats img @ map fst fmts\<rparr>)"
  using assms by (induction fmts arbitrary: img) auto

lemma harvest_from_ok:
  assumes "\<forall>figman path dpi. savefig h figman path dpi = None"
  shows "harvest_from h output_base output_dir fmts n j fs =
           Inr (map (\<lambda>k. \<lparr>basename = (if n = 1 then output_base
                                       else output_base @ ''_'' @ fmt_02d k),
                            dirname = output_dir, formats = map fst fmts\<rparr>)
                  [j..<j + length fs])"
proof (induction fs arbitrary: j)
  case Nil
  then show ?case by simp
next
  case (Cons f fs)
  have "[j..<j + length (f # fs)] = j # [Suc j..<Suc j + length fs]"
    using upt_conv_Cons [of j "j + length (f # fs)"] by simp
  then show ?case
    using Cons [of "Suc j"] save_formats_ok [OF assms] by (simp add: Let_def)
qed

lemma harvest_ok:
  assumes "\<forall>figman path dpi. savefig h figman path dpi = None"
  shows "harvest h output_base output_dir fmts fs =
           Inr (map (\<lambda>k. \<lparr>basename = (if length fs = 1 then output_base
                                       else output_base @ ''_'' @ fmt_02d k),
                            dirname = output_dir, formats = map fst fmts\<rparr>)
                  [0..<length fs])"
  using harvest_from_ok [OF assms, of output_base output_dir fmts "length fs" 0 fs]
  by (simp add: harvest_def)

lemma decimal_one_digit: "j < 10 \<Longrightarrow> decimal j = [digit_char j]"
  by (simp add: decimal.simps [of j])

lemma decimal_two_digits:
  "10 \<le> j \<Longrightarrow> j < 100 \<Longrightarrow> decimal j = [digit_char (j div 10), digit_char (j mod 10)]"
  using decimal_one_digit [of "j div 10"] by (simp add: decimal.simps [of j])

lemma decimal_not_Nil: "decimal j \<noteq> []"
  by (simp add: decimal.simps [of j])

lemma decimal_three_digits: "100 \<le> j \<Longrightarrow> 3 \<le> length (decimal j)"
proof -
  assume j: "100 \<le> j"
  then have "10 \<le> j div 10" by simp
  then have "decimal (j div 10) = decimal (j div 10 div 10) @ [digit_char (j div 10 mod 10)]"
    by (simp add: decimal.simps [of "j div 10"])
  moreover have "decimal j = decimal (j div 10) @ [digit_char (j mod 10)]"
    using j by (simp add: decimal.simps [of j])
  moreover have "1 \<le> length (decimal (j div 10 div 10))"
    using decimal_not_Nil [of "j div 10 div 10"] by (cases "decimal (j div 10 div 10)") auto
  ultimately show ?thesis by simp
qed

lemma fmt_02d_below_100: "j < 100 \<Longrightarrow> fmt_02d j = [digit_char (j div 10), digit_char (j mod 10)]"
proof (cases "j < 10")
  case True
  then show ?thesis
    by (simp add: fmt_02d_def decimal_one_digit digit_char_def)
next
  case False
  assume "j < 100"
  then show ?thesis using False
    by (simp add: fmt_02d_def decimal_two_digits)
qed

lemma fmt_02d_from_100: "100 \<le> j \<Longrightarrow> fmt_02d j = decimal j"
  using decimal_three_digits [of j] by (simp add: fmt_02d_def)

lemma render_figures_harvest:
  assumes "render_figures h code code_path output_dir output_base conf ctx function_name
             context_reset close_figs raises s = (Inr images, pc, w')"
  shows "\<exists>fmts. parse_formats h (nbplot_formats conf) = Inr fmts
           \<and> harvest h output_base output_dir fmts (figs w') = Inr images"
proof -
  obtain plot_context w where s: "s = (plot_context, w)" by (cases s)
  obtain fmts where f: "parse_formats h (nbplot_formats conf) = Inr fmts"
    using assms s by (cases "parse_formats h (nbplot_formats conf)") (auto simp: render_figures_def)
  show ?thesis
    using assms s f
    by (auto simp: render_figures_def Let_def split: sum.splits option.splits prod.splits if_splits)
qed

text \<open>
  C7 (as amended). When no save fails, the loop at the end of \<open>render_figures\<close> gives one
  image per figure that the backend tracks after the code ran, in the order of registration.
  With exactly one figure the image is named \<open>output_base\<close>; otherwise the name is
  \<open>output_base\<close>, an underscore and the index of the figure, written in decimal with
  zeros in front up to a width of two: two digits for the indexes below 100, and all the
  digits of the index (three or more) from index 100 on.
\<close>

theorem render_figures_image_names:
  assumes "\<forall>figman path dpi. savefig h figman path dpi = None"
  shows "(\<exists>images. harvest h output_base output_dir fmts fig_managers = Inr images
            \<and> length images = length fig_managers
            \<and> map basename images =
                (if length fig_managers = 1 then [output_base]
                 else map (\<lambda>j. output_base @ ''_'' @ fmt_02d j) [0..<length fig_managers]))
       \<and> (render_figures h code code_path output_dir output_base conf ctx function_name
             context_reset close_figs raises s = (Inr images, pc, w') \<longrightarrow>
           length images = length (figs w')
           \<and> map basename images =
               (if length (figs w') = 1 then [output_base]
                else map (\<lambda>j. output_base @ ''_'' @ fmt_02d j) [0..<length (figs w')]))
       \<and> (\<forall>j<100. fmt_02d j = [digit_char (j div 10), digit_char (j mod 10)])
       \<and> (\<forall>j\<ge>100. fmt_02d j = decimal j \<and> 3 \<le> length (decimal j))"
proof -
  have names: "map basename
          (map (\<lambda>k. \<lparr>basename = (if length fs = 1 then output_base
                                  else output_base @ ''_'' @ fmt_02d k),
                       dirname = output_dir, formats = map fst fm\<rparr>)
             [0..<length fs]) =
        (if length fs = 1 then [output_base]
         else map (\<lambda>j. output_base @ ''_'' @ fmt_02d j) [0..<length fs])" for fs fm
    by (simp add: comp_def)
  have a: "\<exists>images. harvest h output_base output_dir fmts fig_managers = Inr images
            \<and> length images = length fig_managers
            \<and> map basename images =
                (if length fig_managers = 1 then [output_base]
                 else map (\<lambda>j. output_base @ ''_'' @ fmt_02d j) [0..<length fig_managers])"
    using harvest_ok [OF assms, of output_base output_dir fmts fig_managers]
      names [of fig_managers fmts] by simp
  have b: "length images = length (figs w')
           \<and> map basename images =
               (if length (figs w') = 1 then [output_base]
                else map (\<lambda>j. output_base @ ''_'' @ fmt_02d j) [0..<length (figs w')])"
    if r: "render_figures h code code_path output_dir output_base conf ctx function_name
             context_reset close_figs raises s = (Inr images, pc, w')"
  proof -
    obtain fm where "harvest h output_base output_dir fm (figs w') = Inr images"
      using render_figures_harvest [OF r] by blast
    then have "images = map (\<lambda>k. \<lparr>basename = (if length (figs w') = 1 then output_base
                                  else output_base @ ''_'' @ fmt_02d k),
                       dirname = output_dir, formats = map fst fm\<rparr>) [0..<length (figs w')]"
      using harvest_ok [OF assms, of output_base output_dir fm "figs w'"] by simp
    then show ?thesis
      using names [of "figs w'" fm] by simp
  qed
  show ?thesis
    using a b fmt_02d_below_100 fmt_02d_from_100 decimal_three_digits by blast
qed

theorem render_figures_image_names_witness:
  "map_sum id (map basename)
       (harvest (quiet_host (\<lambda>c s. (None, s))) ''index-1'' ''/build'' [(''png'', 80)] [1, 2, 3])
     = Inr [''index-1_00'', ''index-1_01'', ''index-1_02'']
   \<and> map_sum id (map basename)
       (harvest (quiet_host (\<lambda>c s. (None, s))) ''index-1'' ''/build'' [(''png'', 80)] [1])
     = Inr [''index-1'']
   \<and> map_sum id (map basename)
       (fst (render_figures
               (quiet_host (\<lambda>c (n, w). (None, n, w\<lparr>figs := figs w @ [1, 2, 3]\<rparr>)))
               ''plot()'' (Some ''/doc/index.rst'') ''/build'' ''index-1'' docs_config
               True None True True None ([], sphinx_world)))
     = Inr [''index-1_00'', ''index-1_01'', ''index-1_02'']"
proof -
  have saves: "\<forall>figman path dpi. savefig (quiet_host (\<lambda>c s. (None, s))) figman path dpi = None"
    by (simp add: quiet_host_def)
  have three: "[0..<length [1, 2, 3::nat]] = [0, 1, 2]"
    by (simp add: upt_rec)
  have digits: "fmt_02d 0 = ''00''" "fmt_02d (Suc 0) = ''01''" "fmt_02d 2 = ''02''"
    "fmt_02d (Suc (Suc 0)) = ''02''"
    by (simp_all add: fmt_02d_below_100 digit_char_def)
  have run: "map_sum id (map basename)
       (fst (render_figures
               (quiet_host (\<lambda>c (n, w). (None, n, w\<lparr>figs := figs w @ [1, 2, 3]\<rparr>)))
               ''plot()'' (Some ''/doc/index.rst'') ''/build'' ''index-1'' docs_config
               True None True True None ([], sphinx_world)))
     = Inr [''index-1_00'', ''index-1_01'', ''index-1_02'']"
    by (simp add: render_figures_def docs_config_def parse_formats_def parse_format_def
        default_dpi_def check_wd_def os_dirname_def is_slash_def run_code_eval Let_def
        harvest_def filename_def pjoin_def endswith_def digits)
  show ?thesis
    using render_figures_image_names
        [OF saves, of "''index-1''" "''/build''" "[(''png'', 80)]" "[1, 2, 3]", THEN conjunct1]
      render_figures_image_names
        [OF saves, of "''index-1''" "''/build''" "[(''png'', 80)]" "[1]", THEN conjunct1]
      run
    unfolding three
    by (auto simp: digits)
qed

text \<open>
  The claim as first stated (a two-digit index for every number of figures) fails with 101
  figures: the last image is named with the three digits of its index.
\<close>

theorem render_figures_index_100_counterexample:
  "map_sum id (\<lambda>images. basename (images ! 100))
       (harvest (quiet_host (\<lambda>c s. (None, s))) ''index-1'' ''/build'' [] [1..<102])
     = Inr ''index-1_100''"
proof -
  have saves: "\<forall>figman path dpi. savefig (quiet_host (\<lambda>c s. (None, s))) figman path dpi = None"
    by (simp add: quiet_host_def)
  have "fmt_02d 100 = ''100''"
    by (simp add: fmt_02d_from_100 decimal.simps [of 100] decimal.simps [of 10]
        decimal.simps [of "Suc 0"] digit_char_def)
  then show ?thesis
    using harvest_ok [OF saves, of "''index-1''" "''/build''" "[]" "[1..<102]"]
    by simp
qed

section \<open>Properties of the flag namespaces and of the part selection\<close>

lemma wf_env_new_dict:
  assumes "wf_env e" and "new_dict e b = (a, e1)"
  shows "wf_env e1" and "a = next_addr e" and "a \<noteq> nbplot_flags e"
    and "\<forall>dn. nbplot_flag_namespaces e dn \<noteq> Some a"
    and "nbplot_flag_namespaces e1 = nbplot_flag_namespaces e"
    and "nbplot_flags e1 = nbplot_flags e" and "docname e1 = docname e"
    and "heap e1 = (heap e)(a := b)" and "next_addr e1 = Suc a"
    and "objects e1 = objects e"
proof -
  have e1: "e1 = e\<lparr>heap := (heap e)(next_addr e := b), next_addr := Suc (next_addr e)\<rparr>"
    and a: "a = next_addr e"
    using assms(2) by (auto simp: new_dict_def)
  show "a = next_addr e" by (rule a)
  show "a \<noteq> nbplot_flags e" using assms(1) a by (auto simp: wf_env_def)
  show "\<forall>dn. nbplot_flag_namespaces e dn \<noteq> Some a"
    using assms(1) a by (fastforce simp: wf_env_def)
  show "wf_env e1"
    using assms(1) unfolding e1 wf_env_def by (auto simp: less_Suc_eq)
  show "nbplot_flag_namespaces e1 = nbplot_flag_namespaces e" "nbplot_flags e1 = nbplot_flags e"
    "docname e1 = docname e" "heap e1 = (heap e)(a := b)" "next_addr e1 = Suc a"
    "objects e1 = objects e"
    by (simp_all add: e1 a)
qed

lemma wf_env_heap:
  "wf_env (e\<lparr>heap := hp\<rparr>) = wf_env e"
  by (simp add: wf_env_def)

lemma wf_env_heap_objects:
  "wf_env (e\<lparr>heap := hp, objects := st\<rparr>) = wf_env e"
  by (simp add: wf_env_def)

lemma wf_env_do_builder_init: "nbplot_flags e < next_addr e \<Longrightarrow> wf_env (do_builder_init e)"
  by (simp add: wf_env_def do_builder_init_def)

lemma do_purge_doc_eq:
  "do_purge_doc e dn =
     e\<lparr>nbplot_reset_markers := (nbplot_reset_markers e)(dn \<mapsto> False),
       heap := (heap e)(next_addr e := heap e (nbplot_flags e)),
       next_addr := Suc (next_addr e),
       nbplot_flag_namespaces := (nbplot_flag_namespaces e)(dn \<mapsto> next_addr e)\<rparr>"
  by (simp add: do_purge_doc_def new_dict_def Let_def)

lemma wf_env_do_purge_doc: "wf_env e \<Longrightarrow> wf_env (do_purge_doc e dn)"
  unfolding do_purge_doc_eq wf_env_def
  by (auto simp: less_Suc_eq split: if_splits)

lemma do_purge_doc_other:
  assumes "wf_env e" and "dn' \<noteq> dn"
  shows "flags_of (do_purge_doc e dn) dn' = flags_of e dn'"
proof -
  have "nbplot_flag_namespaces e dn' \<noteq> Some (next_addr e)"
    using assms(1) by (fastforce simp: wf_env_def)
  then show ?thesis
    using assms(2) unfolding do_purge_doc_eq flags_of_def
    by (auto split: option.splits)
qed

lemma flag_namespace_props:
  assumes "wf_env e" and "flag_namespace e dn = (a, e1)"
  shows "wf_env e1 \<and> nbplot_flag_namespaces e1 dn = Some a \<and> heap e1 a = flags_of e dn \<and>
      nbplot_flags e1 = nbplot_flags e \<and> docname e1 = docname e \<and>
      heap e1 (nbplot_flags e1) = heap e (nbplot_flags e) \<and>
      (\<forall>d. flags_of e1 d = flags_of e d) \<and> a < next_addr e1 \<and> a \<noteq> nbplot_flags e1 \<and>
      objects e1 = objects e"
proof (cases "nbplot_flag_namespaces e dn")
  case None
  then have e1: "e1 = e\<lparr>heap := (heap e)(next_addr e := []), next_addr := Suc (next_addr e),
                   nbplot_flag_namespaces := (nbplot_flag_namespaces e)(dn \<mapsto> next_addr e)\<rparr>"
    and a: "a = next_addr e"
    using assms(2) by (auto simp: flag_namespace_def new_dict_def Let_def)
  have fresh: "\<forall>d. nbplot_flag_namespaces e d \<noteq> Some (next_addr e)"
    and cfg: "nbplot_flags e < next_addr e"
    using assms(1) by (fastforce simp: wf_env_def)+
  have wf: "wf_env e1"
    using assms(1) unfolding e1 wf_env_def by (auto simp: less_Suc_eq split: if_splits)
  have fl: "\<forall>d. flags_of e1 d = flags_of e d"
    using None fresh unfolding e1 flags_of_def by (auto split: option.splits)
  show ?thesis
    using wf fl cfg None by (simp add: e1 a flags_of_def)
next
  case (Some b)
  then have "e1 = e" "a = b"
    using assms(2) by (auto simp: flag_namespace_def)
  then show ?thesis
    using assms(1) Some by (auto simp: flags_of_def wf_env_def)
qed

lemma nbplot_flags_run_frame:
  assumes "wf_env e" and "nbplot_flags_run ex content e = (x, e')"
  shows "wf_env e' \<and> heap e' (nbplot_flags e') = heap e (nbplot_flags e)
       \<and> (\<forall>dn'. dn' \<noteq> docname e \<longrightarrow> flags_of e' dn' = flags_of e dn')"
proof -
  obtain a e1 where fn: "flag_namespace e (docname e) = (a, e1)"
    by (cases "flag_namespace e (docname e)")
  obtain y b st where ex: "ex (join [NL] content) (heap e1 a, objects e1) = (y, b, st)"
    using prod_cases3 by blast
  have e': "e' = e1\<lparr>heap := (heap e1)(a := b), objects := st\<rparr>"
    using assms(2) fn ex by (simp add: nbplot_flags_run_def)
  have f: "wf_env e1" "nbplot_flag_namespaces e1 (docname e) = Some a"
    "heap e1 (nbplot_flags e1) = heap e (nbplot_flags e)" "a \<noteq> nbplot_flags e1"
    "\<forall>d. flags_of e1 d = flags_of e d"
    using flag_namespace_props [OF assms(1) fn] by auto
  have 1: "wf_env e'" using f(1) by (simp add: e' wf_env_heap_objects)
  have 2: "heap e' (nbplot_flags e') = heap e (nbplot_flags e)"
    using f(3,4) by (simp add: e')
  have 3: "flags_of e' dn' = flags_of e dn'" if ne: "dn' \<noteq> docname e" for dn'
  proof -
    have "nbplot_flag_namespaces e1 dn' \<noteq> Some a"
      using f(1,2) ne unfolding wf_env_def by blast
    then have "flags_of e' dn' = flags_of e1 dn'"
      by (auto simp: e' flags_of_def split: option.splits)
    then show ?thesis using f(5) by simp
  qed
  show ?thesis using 1 2 3 by blast
qed

text \<open>
  C8 (as amended). In every environment that the hooks keep, the purge hook, which the host
  runs before it reads a document, gives the document a namespace of flags that is a new
  dict with the bindings of the global default mapping \<open>config.nbplot_flags\<close>: the first
  access after the purge finds that dict, which holds for each name the value that the
  default mapping holds, and which is not the default mapping's dict and not the namespace
  of any other document; the purge leaves the namespaces of the other documents, the
  default mapping and the mutable objects as they are. A change of the bindings made
  through the namespace of one document (by the \<open>nbplot-flags\<close> directive, whatever its
  code does to the bindings and to the mutable objects) changes neither the bindings of
  the namespace of another document nor those of the global default mapping.
\<close>

theorem flag_namespace_copy_after_purge:
  assumes "wf_env e"
  shows "(case flag_namespace (do_purge_doc e dn) dn of
            (a, e1) \<Rightarrow>
              heap e1 a = heap e (nbplot_flags e) \<and> a \<noteq> nbplot_flags e1
              \<and> (\<forall>dn'. dn' \<noteq> dn \<longrightarrow> nbplot_flag_namespaces e1 dn' \<noteq> Some a)
              \<and> heap e1 (nbplot_flags e1) = heap e (nbplot_flags e)
              \<and> objects e1 = objects e)
       \<and> (\<forall>dn'. dn' \<noteq> dn \<longrightarrow> flags_of (do_purge_doc e dn) dn' = flags_of e dn')
       \<and> (nbplot_flags_run ex content e = (x, e') \<longrightarrow>
            heap e' (nbplot_flags e') = heap e (nbplot_flags e)
            \<and> (\<forall>dn'. dn' \<noteq> docname e \<longrightarrow> flags_of e' dn' = flags_of e dn')
            \<and> wf_env e')
       \<and> wf_env (do_purge_doc e dn)"
proof -
  let ?p = "do_purge_doc e dn"
  have wfp: "wf_env ?p" using assms by (rule wf_env_do_purge_doc)
  have bound: "nbplot_flag_namespaces ?p dn = Some (next_addr e)"
    by (simp add: do_purge_doc_eq)
  then have fn: "flag_namespace ?p dn = (next_addr e, ?p)"
    by (simp add: flag_namespace_def)
  have cfg: "nbplot_flags e < next_addr e" using assms by (simp add: wf_env_def)
  have other: "nbplot_flag_namespaces ?p dn' \<noteq> Some (next_addr e)" if "dn' \<noteq> dn" for dn'
    using wfp bound that unfolding wf_env_def by blast
  have 1: "(case flag_namespace ?p dn of
            (a, e1) \<Rightarrow>
              heap e1 a = heap e (nbplot_flags e) \<and> a \<noteq> nbplot_flags e1
              \<and> (\<forall>dn'. dn' \<noteq> dn \<longrightarrow> nbplot_flag_namespaces e1 dn' \<noteq> Some a)
              \<and> heap e1 (nbplot_flags e1) = heap e (nbplot_flags e)
              \<and> objects e1 = objects e)"
    unfolding fn using cfg other by (simp add: do_purge_doc_eq)
  have 2: "\<forall>dn'. dn' \<noteq> dn \<longrightarrow> flags_of ?p dn' = flags_of e dn'"
    using do_purge_doc_other [OF assms] by blast
  have 3: "nbplot_flags_run ex content e = (x, e') \<longrightarrow>
            heap e' (nbplot_flags e') = heap e (nbplot_flags e)
            \<and> (\<forall>dn'. dn' \<noteq> docname e \<longrightarrow> flags_of e' dn' = flags_of e dn')
            \<and> wf_env e'"
    using nbplot_flags_run_frame [OF assms] by blast
  show ?thesis using 1 2 3 wfp by blast
qed

theorem flag_namespace_copy_witness:
  "flags_of (snd (nbplot_flags_run set_slow_false [''slow = False'']
       (do_purge_doc (do_purge_doc (do_builder_init build_env) ''other'') ''index''))) ''index''
     = [(''slow'', PBool False)]
   \<and> flags_of (snd (nbplot_flags_run set_slow_false [''slow = False'']
       (do_purge_doc (do_purge_doc (do_builder_init build_env) ''other'') ''index''))) ''other''
     = [(''slow'', PBool True)]
   \<and> heap (snd (nbplot_flags_run set_slow_false [''slow = False'']
       (do_purge_doc (do_purge_doc (do_builder_init build_env) ''other'') ''index''))) 0
     = [(''slow'', PBool True)]"
proof -
  let ?e = "do_purge_doc (do_purge_doc (do_builder_init build_env) ''other'') ''index''"
  have wf: "wf_env ?e"
    by (intro wf_env_do_purge_doc wf_env_do_builder_init) (simp add: build_env_def)
  obtain x e' where r: "nbplot_flags_run set_slow_false [''slow = False''] ?e = (x, e')"
    by (cases "nbplot_flags_run set_slow_false [''slow = False''] ?e")
  have "flags_of e' ''index'' = [(''slow'', PBool False)]"
    using r by (auto simp: nbplot_flags_run_def flag_namespace_def do_purge_doc_eq
        do_builder_init_def build_env_def set_slow_false_def flags_of_def)
  moreover have "flags_of ?e ''other'' = [(''slow'', PBool True)]"
    "heap ?e (nbplot_flags ?e) = [(''slow'', PBool True)]" "docname ?e = ''index''"
    "nbplot_flags e' = 0"
    using r by (auto simp: nbplot_flags_run_def flag_namespace_def do_purge_doc_eq
        do_builder_init_def build_env_def set_slow_false_def flags_of_def)
  ultimately show ?thesis
    using flag_namespace_copy_after_purge [OF wf, of _ set_slow_false "[''slow = False'']" x e'] r
    by auto
qed

text \<open>
  The claim as first stated (no mutation made through the namespace of a document is ever
  visible in the namespace of another document or in the global default mapping) fails for
  a mutable value: the copy holds the values of the default mapping, not copies of them. With
  the flags \<open>{'seen': []}\<close>, the directive \<open>nbplot-flags\<close> with \<open>seen.append(1)\<close> in
  the document \<open>index\<close> changes the list that the default mapping holds, and the document
  \<open>other\<close>, purged and read after it, finds \<open>seen\<close> to be \<open>[1]\<close>.
\<close>

theorem flag_namespace_shared_value_counterexample:
  "seen_in (objects list_env) (heap list_env (nbplot_flags list_env)) = [(''seen'', PList [])]
   \<and> fst (nbplot_flags_run append_seen [''seen.append(1)'']
            (do_purge_doc (do_builder_init list_env) ''index'')) = None
   \<and> (case snd (nbplot_flags_run append_seen [''seen.append(1)'']
                   (do_purge_doc (do_builder_init list_env) ''index'')) of
         e2 \<Rightarrow> seen_in (objects e2) (heap e2 (nbplot_flags e2))) = [(''seen'', PList [PInt 1])]
   \<and> (case flag_namespace
              (do_purge_doc
                 (snd (nbplot_flags_run append_seen [''seen.append(1)'']
                         (do_purge_doc (do_builder_init list_env) ''index'')))
                 ''other'')
              ''other'' of
         (a, e4) \<Rightarrow> seen_in (objects e4) (heap e4 a)) = [(''seen'', PList [PInt 1])]"
  by (simp add: nbplot_flags_run_def flag_namespace_def do_purge_doc_eq do_builder_init_def
      list_env_def append_seen_def seen_in_def)

lemma get_parts_frame:
  assumes "wf_env e" and "get_parts ev expr e = (r, e')"
  shows "wf_env e' \<and> docname e' = docname e \<and> (\<forall>d. flags_of e' d = flags_of e d)"
proof (cases expr)
  case None
  then show ?thesis using assms by (simp add: get_parts_def)
next
  case (Some source)
  obtain a e1 where fn: "flag_namespace e (docname e) = (a, e1)"
    by (cases "flag_namespace e (docname e)")
  obtain c e2 where nd: "new_dict e1 (heap e1 a) = (c, e2)"
    by (cases "new_dict e1 (heap e1 a)")
  obtain v b st where ev: "ev source (heap e2 c, objects e2) = (v, b, st)"
    using prod_cases3 by blast
  have e': "e' = e2\<lparr>heap := (heap e2)(c := b), objects := st\<rparr>"
    using assms(2) Some fn nd ev by (auto simp: get_parts_def Let_def split: sum.splits)
  have f: "wf_env e1" "docname e1 = docname e" "\<forall>d. flags_of e1 d = flags_of e d"
    using flag_namespace_props [OF assms(1) fn] by auto
  note n = wf_env_new_dict [OF f(1) nd]
  have "flags_of e' d = flags_of e1 d" for d
    using n(4,5) by (auto simp: e' n(8) flags_of_def split: option.splits)
  then show ?thesis
    using n(1,7) f by (simp add: e' wf_env_heap_objects)
qed

lemma get_parts_value:
  assumes "wf_env e" and "ev source (flags_of e (docname e), objects e) = (r, b, st)"
  shows "fst (get_parts ev (Some source) e) = map_sum id (index_items st) r"
proof -
  obtain a e1 where fn: "flag_namespace e (docname e) = (a, e1)"
    by (cases "flag_namespace e (docname e)")
  obtain c e2 where nd: "new_dict e1 (heap e1 a) = (c, e2)"
    by (cases "new_dict e1 (heap e1 a)")
  have f: "wf_env e1" "heap e1 a = flags_of e (docname e)" "objects e1 = objects e"
    using flag_namespace_props [OF assms(1) fn] by auto
  have "heap e2 c = flags_of e (docname e)" "objects e2 = objects e"
    using wf_env_new_dict(8,10) [OF f(1) nd] f(2,3) by simp_all
  then have "ev source (heap e2 c, objects e2) = (r, b, st)"
    using assms(2) by simp
  then show ?thesis
    using fn nd by (cases r) (simp_all add: get_parts_def Let_def)
qed

lemma contents_at_not_index:
  "\<not> list_all is_index idx \<Longrightarrow> \<exists>x. contents_at parts idx = Inl x"
proof (induction idx)
  case Nil
  then show ?case by simp
next
  case (Cons i idx)
  show ?case
  proof (cases "is_index i")
    case True
    then have "\<exists>x. contents_at parts idx = Inl x" using Cons by simp
    then show ?thesis by (auto split: sum.splits)
  next
    case False
    then have "part_at parts i = Inl (Exc TypeError)" by (cases i) auto
    then show ?thesis by simp
  qed
qed

text \<open>
  C6 (as amended). The expression of \<open>render-parts\<close> or \<open>run-parts\<close> is evaluated on
  the bindings of the document's namespace of flags, in a dict of its own: the indices are
  the value that the evaluation on these bindings gives, taken as its items when it is a
  \<open>Sequence\<close> and as a tuple of one item when it is not, and after the selection every
  namespace of flags holds the bindings that it held before. If one of these items is no
  index of a list (neither an \<open>int\<close> nor an object with \<open>__index__\<close>), the
  selection raises an exception.
\<close>

theorem select_parts_rejects_non_indices:
  assumes "wf_env e"
    and "(render_parts options = Some source
            \<and> ev source (flags_of e (docname e), objects e) = (Inr v, b, st))
         \<or> (run_parts options = Some source
            \<and> ev source (flags_of e (docname e),
                           objects (snd (get_parts ev (render_parts options) e)))
                = (Inr v, b, st))"
    and "\<not> list_all is_index (index_items st v)"
  shows "(\<exists>x. fst (select_parts ev content options e) = Inl x)
       \<and> (\<forall>d. flags_of (snd (select_parts ev content options e)) d = flags_of e d)
       \<and> (ev source' (flags_of e (docname e), objects e) = (r', b', st') \<longrightarrow>
            fst (get_parts ev (Some source') e) = map_sum id (index_items st') r'
            \<and> (\<forall>d. flags_of (snd (get_parts ev (Some source') e)) d = flags_of e d))"
proof -
  have pin: "ev source' (flags_of e (docname e), objects e) = (r', b', st') \<longrightarrow>
            fst (get_parts ev (Some source') e) = map_sum id (index_items st') r'
            \<and> (\<forall>d. flags_of (snd (get_parts ev (Some source') e)) d = flags_of e d)"
    using get_parts_value [OF assms(1), of ev source' r' b' st']
      get_parts_frame [OF assms(1), of ev "Some source'"]
    by (metis prod.collapse)
  obtain r1 e1 where g1: "get_parts ev (render_parts options) e = (r1, e1)"
    by (cases "get_parts ev (render_parts options) e")
  have fr1: "wf_env e1" "docname e1 = docname e" "\<forall>d. flags_of e1 d = flags_of e d"
    using get_parts_frame [OF assms(1) g1] by auto
  obtain r2 e2 where g2: "get_parts ev (run_parts options) e1 = (r2, e2)"
    by (cases "get_parts ev (run_parts options) e1")
  have fr2: "\<forall>d. flags_of e2 d = flags_of e d"
    using get_parts_frame [OF fr1(1) g2] fr1(3) by auto
  have bad: "\<exists>x. contents_at parts (index_items st v) = Inl x" for parts
    using contents_at_not_index [OF assms(3)] .
  have render: "r1 = Inr (index_items st v)"
    if "render_parts options = Some source"
      and "ev source (flags_of e (docname e), objects e) = (Inr v, b, st)"
    using get_parts_value [of e ev source "Inr v" b st] assms(1) g1 that by simp
  have run: "r2 = Inr (index_items st v)"
    if "run_parts options = Some source"
      and "ev source (flags_of e (docname e), objects e1) = (Inr v, b, st)"
    using get_parts_value [OF fr1(1), of ev source "Inr v" b st] that fr1 g2 by simp
  have main: "(\<exists>x. fst (select_parts ev content options e) = Inl x)
       \<and> (\<forall>d. flags_of (snd (select_parts ev content options e)) d = flags_of e d)"
  proof (cases "parse_parts content")
    case (Inl x)
    then show ?thesis by (simp add: select_parts_def)
  next
    case (Inr parts)
    show ?thesis
    proof (cases r1)
      case (Inl x)
      then show ?thesis using Inr g1 fr1 by (simp add: select_parts_def)
    next
      case i1: (Inr idx1)
      show ?thesis
      proof (cases "contents_at parts idx1")
        case (Inl x)
        then show ?thesis using Inr g1 i1 fr1 by (simp add: select_parts_def)
      next
        case c1: (Inr to_render)
        have "\<not> (render_parts options = Some source
                 \<and> ev source (flags_of e (docname e), objects e) = (Inr v, b, st))"
          using render bad [of parts] i1 c1 by auto
        then have rs: "run_parts options = Some source"
          and rv: "ev source (flags_of e (docname e), objects e1) = (Inr v, b, st)"
          using assms(2) g1 by auto
        obtain x where "contents_at parts (index_items st v) = Inl x"
          using bad by blast
        then show ?thesis
          using Inr g1 i1 c1 g2 run [OF rs rv] fr2 by (simp add: select_parts_def)
      qed
    qed
  qed
  show ?thesis using main pin by blast
qed

theorem select_parts_rejects_witness:
  "fst (select_parts name_eval [''x = 1''] \<lparr>render_parts = None, run_parts = Some ''parts''\<rparr>
          (do_purge_doc (do_builder_init (parts_env (PStr ''ab''))) ''index''))
     = Inl (Exc TypeError)
   \<and> flags_of (snd (select_parts name_eval [''x = 1'']
          \<lparr>render_parts = None, run_parts = Some ''parts''\<rparr>
          (do_purge_doc (do_builder_init (parts_env (PStr ''ab''))) ''index''))) ''index''
     = [(''parts'', PStr ''ab'')]
   \<and> fst (get_parts name_eval (Some ''parts'')
            (do_purge_doc (do_builder_init (parts_env (PStr ''ab''))) ''index''))
     = Inr [PStr ''a'', PStr ''b'']"
proof -
  let ?e = "do_purge_doc (do_builder_init (parts_env (PStr ''ab''))) ''index''"
  have wf: "wf_env ?e"
    by (intro wf_env_do_purge_doc wf_env_do_builder_init) (simp add: parts_env_def)
  have pp: "parse_parts [''x = 1''] = Inr [\<lparr>attributes = [], contents = [''x = 1'']\<rparr>]"
    using parse_parts_single [of "[''x = 1'']"] by (simp add: strip_def isspace_def is_linebreak_def)
  have fl: "flags_of ?e ''index'' = [(''parts'', PStr ''ab'')]" "docname ?e = ''index''"
    "objects ?e = (\<lambda>a. PNone)"
    by (simp_all add: do_purge_doc_eq do_builder_init_def parts_env_def flags_of_def)
  have g0: "get_parts name_eval None ?e = (Inr [PInt 0], ?e)"
    by (simp add: get_parts_def)
  have ev: "name_eval ''parts'' ([(''parts'', PStr ''ab'')], (\<lambda>a. PNone))
              = (Inr (PStr ''ab''),
                 [(''parts'', PStr ''ab''), (''__builtins__'', PObj ''dict'')], (\<lambda>a. PNone))"
    by (simp add: name_eval_def)
  have v: "fst (select_parts name_eval [''x = 1''] \<lparr>render_parts = None, run_parts = Some ''parts''\<rparr> ?e)
             = Inl (Exc TypeError)"
    by (simp add: select_parts_def pp get_parts_def int_index_def flag_namespace_def new_dict_def
        do_purge_doc_eq do_builder_init_def parts_env_def name_eval_def index_items_def Let_def)
  show ?thesis
    using select_parts_rejects_non_indices
      [OF wf, where options = "\<lparr>render_parts = None, run_parts = Some ''parts''\<rparr>"
         and source = "''parts''" and ev = name_eval and v = "PStr ''ab''"
         and b = "[(''parts'', PStr ''ab''), (''__builtins__'', PObj ''dict'')]"
         and st = "(\<lambda>a. PNone)" and source' = "''parts''" and r' = "Inr (PStr ''ab'')"
         and b' = "[(''parts'', PStr ''ab''), (''__builtins__'', PObj ''dict'')]"
         and st' = "(\<lambda>a. PNone)" and content = "[''x = 1'']"]
      v
    by (simp add: g0 fl ev index_items_def)
qed

text \<open>
  The claim as first stated (a value that is neither an integer nor a sequence of integers
  makes the selection fail) fails for the empty string: a \<open>str\<close> is a \<open>Sequence\<close>, the
  empty one has no items, and the selection returns with no part selected. With the flags
  \<open>{'parts': ''}\<close> and the option \<open>:run-parts: parts\<close> the code to run is empty and
  nothing is raised.
\<close>

theorem select_parts_empty_string_counterexample:
  "fst (select_parts name_eval [''x = 1''] \<lparr>render_parts = None, run_parts = Some ''parts''\<rparr>
          (do_purge_doc (do_builder_init (parts_env (PStr []))) ''index''))
     = Inr (''x = 1'', [])
   \<and> \<not> is_integer (PStr []) \<and> \<not> is_integer_sequence (PStr [])"
proof -
  have pp: "parse_parts [''x = 1''] = Inr [\<lparr>attributes = [], contents = [''x = 1'']\<rparr>]"
    using parse_parts_single [of "[''x = 1'']"] by (simp add: strip_def isspace_def is_linebreak_def)
  show ?thesis
    by (simp add: select_parts_def pp get_parts_def int_index_def flag_namespace_def new_dict_def
        do_purge_doc_eq do_builder_init_def parts_env_def name_eval_def index_items_def Let_def)
qed

end
